theory Spec2Isabelle
  imports Complex_Main "HOL-Library.Char_ord" "HOL-Library.List_Lexorder"
begin

section \<open>Python strings and the built-ins the tool calls\<close>

text \<open>
  A Python \<open>str\<close> is modelled as a \<open>string\<close> whose characters are the code points
  below 256 (Latin-1). The built-ins \<open>str.strip\<close>, \<open>str.lower\<close>, \<open>str.split\<close>,
  \<open>int\<close> and \<open>float\<close> are not code of the repository; they are modelled from the
  Python language reference, on that range of code points.
\<close>

definition isspace :: "char \<Rightarrow> bool" where
  \<comment> \<open>\<open>str.isspace\<close> below 256: TAB, LF, VT, FF, CR, FS, GS, RS, US, SPACE, NEL, NBSP\<close>
  "isspace c = (c \<in> set [CHR 0x09, CHR 0x0A, CHR 0x0B, CHR 0x0C, CHR 0x0D,
                          CHR 0x1C, CHR 0x1D, CHR 0x1E, CHR 0x1F, CHR 0x20,
                          CHR 0x85, CHR 0xA0])"

definition lstrip :: "string \<Rightarrow> string" where
  "lstrip s = dropWhile isspace s"

definition rstrip :: "string \<Rightarrow> string" where
  "rstrip s = rev (dropWhile isspace (rev s))"

definition strip :: "string \<Rightarrow> string" where
  "strip s = rstrip (lstrip s)"

definition lower_char :: "char \<Rightarrow> char" where
  \<comment> \<open>\<open>A\<close>..\<open>Z\<close> and the Latin-1 capitals 0xC0..0xDE (the sign 0xD7 apart) move up by 32\<close>
  "lower_char c =
     (let n = (of_char c :: nat)
      in if (65 \<le> n \<and> n \<le> 90) \<or> (192 \<le> n \<and> n \<le> 222 \<and> n \<noteq> 215)
         then char_of (n + 32) else c)"

definition lower :: "string \<Rightarrow> string" where
  "lower s = map lower_char s"

fun split_comma :: "string \<Rightarrow> string list" where
  \<comment> \<open>\<open>s.split(",")\<close>: always at least one part\<close>
  "split_comma [] = [[]]"
| "split_comma (c # cs) =
     (if c = CHR '','' then [] # split_comma cs
      else (case split_comma cs of [] \<Rightarrow> [[c]] | p # ps \<Rightarrow> (c # p) # ps))"

fun join :: "string \<Rightarrow> string list \<Rightarrow> string" where
  \<comment> \<open>\<open>sep.join(parts)\<close>\<close>
  "join sep [] = []"
| "join sep [p] = p"
| "join sep (p # q # ps) = p @ sep @ join sep (q # ps)"

definition isdigit :: "char \<Rightarrow> bool" where
  "isdigit c = (c \<in> set ''0123456789'')"

definition digit_val :: "char \<Rightarrow> nat" where
  "digit_val c = of_char c - 48"

definition nat_of_digits :: "string \<Rightarrow> nat" where
  "nat_of_digits ds = foldl (\<lambda>a c. 10 * a + digit_val c) 0 ds"

fun remove_underscores :: "char \<Rightarrow> string \<Rightarrow> string option" where
  \<comment> \<open>an underscore is allowed only between two digits; the first argument is the
      character read before (\<open>CHR 0x00\<close> at the start)\<close>
  "remove_underscores prev [] = (if prev = CHR ''_'' then None else Some [])"
| "remove_underscores prev (c # cs) =
     (if c = CHR ''_''
      then (if isdigit prev then remove_underscores c cs else None)
      else if prev = CHR ''_'' \<and> \<not> isdigit c then None
      else map_option ((#) c) (remove_underscores c cs))"

definition split_sign :: "string \<Rightarrow> bool \<times> string" where
  \<comment> \<open>an optional sign: \<open>True\<close> for minus\<close>
  "split_sign s =
     (case s of
        [] \<Rightarrow> (False, [])
      | c # cs \<Rightarrow> if c = CHR ''-'' then (True, cs)
                  else if c = CHR ''+'' then (False, cs) else (False, s))"

definition py_int :: "string \<Rightarrow> int option" where
  \<comment> \<open>\<open>int(s)\<close> in base 10: \<open>None\<close> stands for \<open>ValueError\<close>. The limit on the number of
      digits of recent Python versions is not modelled.\<close>
  "py_int s =
     (case remove_underscores (CHR 0x00) (strip s) of
        None \<Rightarrow> None
      | Some t \<Rightarrow>
          (let (neg, ds) = split_sign t
           in if ds \<noteq> [] \<and> list_all isdigit ds
              then Some (if neg then - int (nat_of_digits ds) else int (nat_of_digits ds))
              else None))"

datatype pyfloat = Finite rat | Infinite bool | NaN

text \<open>
  A float is represented by the exact rational its literal denotes; the rounding to
  binary64, the overflow to infinity and the sign of zero are not modelled.
\<close>

definition pow10 :: "int \<Rightarrow> rat" where
  "pow10 e = (if 0 \<le> e then 10 ^ nat e else 1 / 10 ^ nat (- e))"

definition float_exponent :: "string \<Rightarrow> int option" where
  \<comment> \<open>what follows the mantissa: nothing, or \<open>e\<close>/\<open>E\<close>, an optional sign and digits\<close>
  "float_exponent r =
     (case r of
        [] \<Rightarrow> Some 0
      | c # cs \<Rightarrow>
          if c = CHR ''e'' \<or> c = CHR ''E''
          then (let (neg, ds) = split_sign cs
                in if ds \<noteq> [] \<and> list_all isdigit ds
                   then Some (if neg then - int (nat_of_digits ds) else int (nat_of_digits ds))
                   else None)
          else None)"

definition float_number :: "string \<Rightarrow> rat option" where
  \<comment> \<open>digits, an optional point and digits (one digit at least), an optional exponent\<close>
  "float_number b =
     (let ip = takeWhile isdigit b;
          r1 = dropWhile isdigit b;
          fp = (case r1 of [] \<Rightarrow> [] | c # cs \<Rightarrow> if c = CHR ''.'' then takeWhile isdigit cs else []);
          r2 = (case r1 of [] \<Rightarrow> [] | c # cs \<Rightarrow> if c = CHR ''.'' then dropWhile isdigit cs else r1)
      in if ip = [] \<and> fp = [] then None
         else (case float_exponent r2 of
                 None \<Rightarrow> None
               | Some e \<Rightarrow>
                   Some (rat_of_nat (nat_of_digits (ip @ fp)) * pow10 (e - int (length fp)))))"

definition py_float :: "string \<Rightarrow> pyfloat option" where
  \<comment> \<open>\<open>float(s)\<close>: \<open>None\<close> stands for \<open>ValueError\<close>\<close>
  "py_float s =
     (case remove_underscores (CHR 0x00) (strip s) of
        None \<Rightarrow> None
      | Some t \<Rightarrow>
          (let (neg, b) = split_sign t
           in if lower b = ''inf'' \<or> lower b = ''infinity'' then Some (Infinite neg)
              else if lower b = ''nan'' then Some NaN
              else (case float_number b of
                      None \<Rightarrow> None
                    | Some q \<Rightarrow> Some (Finite (if neg then - q else q)))))"

section \<open>Values and exceptions\<close>

datatype pyval = PBool bool | PInt int | PFloat pyfloat | PStr string | PList "pyval list"

datatype exc =
    ValueError string
  | TypeError string
  | OtherException string  \<comment> \<open>any other subclass of \<open>Exception\<close>\<close>
  | NonException string    \<comment> \<open>a \<open>BaseException\<close> outside \<open>Exception\<close>, as \<open>KeyboardInterrupt\<close>\<close>

fun exc_msg :: "exc \<Rightarrow> string" where
  \<comment> \<open>\<open>str(e)\<close>\<close>
  "exc_msg (ValueError m) = m"
| "exc_msg (TypeError m) = m"
| "exc_msg (OtherException m) = m"
| "exc_msg (NonException m) = m"

fun is_Exception :: "exc \<Rightarrow> bool" where
  \<comment> \<open>what \<open>except Exception\<close> catches\<close>
  "is_Exception (NonException m) = False"
| "is_Exception e = True"

fun is_TypeError :: "exc \<Rightarrow> bool" where
  "is_TypeError (TypeError m) = True"
| "is_TypeError e = False"

section \<open>The literal parser\<close>

subsection \<open>\<open>_parse_value\<close> of \<open>MassKnobModifier/MassKnobModifier.py\<close>\<close>

fun parse_parts :: "string list \<Rightarrow> pyval list \<Rightarrow> string list \<Rightarrow> pyval" where
  \<comment> \<open>the loop over \<open>parts\<close>: the parts, the list \<open>parsed\<close> so far, the parts still to read\<close>
  "parse_parts parts parsed [] = PList parsed"
| "parse_parts parts parsed (p # ps) =
     (case (if CHR ''.'' \<in> set p \<or> CHR ''e'' \<in> set (lower p)
            then map_option PFloat (py_float p) else map_option PInt (py_int p)) of
        None \<Rightarrow> PList (map PStr parts)
      | Some x \<Rightarrow> parse_parts parts (parsed @ [x]) ps)"

definition parse_value :: "string option \<Rightarrow> exc + pyval" where
  \<comment> \<open>the argument \<open>None\<close> is Python's \<open>None\<close>\<close>
  "parse_value value_str =
     (case value_str of
        None \<Rightarrow> Inl (ValueError ''Empty value.'')
      | Some raw \<Rightarrow>
          (let v = strip raw
           in if v = [] then Inl (ValueError ''Empty value.'')
              else
                (let lower_v = lower v
                 in if lower_v \<in> set [''true'', ''yes'', ''on''] then Inr (PBool True)
                    else if lower_v \<in> set [''false'', ''no'', ''off''] then Inr (PBool False)
                    else
                      (case (if CHR ''.'' \<in> set v \<or> CHR ''e'' \<in> set lower_v
                             then map_option PFloat (py_float v)
                             else map_option PInt (py_int v)) of
                         Some x \<Rightarrow> Inr x
                       | None \<Rightarrow>
                           if CHR '','' \<in> set v
                           then (let parts = map strip (split_comma v)
                                 in Inr (parse_parts parts [] parts))
                           else Inr (PStr v)))))"

subsection \<open>\<open>_parse_value\<close> of the older \<open>MassKnobModifier.py\<close>\<close>

fun parse_parts_v1 :: "string list \<Rightarrow> pyval list \<Rightarrow> string list \<Rightarrow> pyval" where
  "parse_parts_v1 parts parsed [] = PList parsed"
| "parse_parts_v1 parts parsed (p # ps) =
     (case (if CHR ''.'' \<in> set p \<or> CHR ''e'' \<in> set (lower p)
            then map_option PFloat (py_float p) else map_option PInt (py_int p)) of
        None \<Rightarrow> PList (map PStr parts)
      | Some x \<Rightarrow> parse_parts_v1 parts (parsed @ [x]) ps)"

definition parse_value_v1 :: "string option \<Rightarrow> exc + pyval" where
  "parse_value_v1 value_str =
     (case value_str of
        None \<Rightarrow> Inl (ValueError ''Empty value.'')
      | Some raw \<Rightarrow>
          (let v = strip raw
           in if v = [] then Inl (ValueError ''Empty value.'')
              else
                (let lower_v = lower v
                 in if lower_v \<in> set [''true'', ''yes'', ''on''] then Inr (PBool True)
                    else if lower_v \<in> set [''false'', ''no'', ''off''] then Inr (PBool False)
                    else
                      (case (if CHR ''.'' \<in> set v \<or> CHR ''e'' \<in> set lower_v
                             then map_option PFloat (py_float v)
                             else map_option PInt (py_int v)) of
                         Some x \<Rightarrow> Inr x
                       | None \<Rightarrow>
                           if CHR '','' \<in> set v
                           then (let parts = map strip (split_comma v)
                                 in Inr (parse_parts_v1 parts [] parts))
                           else Inr (PStr v)))))"

section \<open>String forms\<close>

fun str_of_nat :: "nat \<Rightarrow> string" where
  "str_of_nat n =
     (if n < 10 then [char_of (48 + n)]
      else str_of_nat (n div 10) @ [char_of (48 + n mod 10)])"

definition str_of_int :: "int \<Rightarrow> string" where
  "str_of_int i = (if i < 0 then CHR ''-'' # str_of_nat (nat (- i)) else str_of_nat (nat i))"

text \<open>
  The string form of a float and the \<open>repr\<close> of a string (quotes and escapes) belong to
  Python, not to the repository: both are parameters.
\<close>

record builtins =
  float_repr :: "pyfloat \<Rightarrow> string"
  str_repr :: "string \<Rightarrow> string"

fun py_repr :: "builtins \<Rightarrow> pyval \<Rightarrow> string" where
  "py_repr E (PBool b) = (if b then ''True'' else ''False'')"
| "py_repr E (PInt i) = str_of_int i"
| "py_repr E (PFloat f) = float_repr E f"
| "py_repr E (PStr s) = str_repr E s"
| "py_repr E (PList xs) = ''['' @ join '', '' (map (py_repr E) xs) @ '']''"

definition py_str :: "builtins \<Rightarrow> pyval \<Rightarrow> string" where
  \<comment> \<open>\<open>str(x)\<close>\<close>
  "py_str E x = (case x of PStr s \<Rightarrow> s | _ \<Rightarrow> py_repr E x)"

fun truthy :: "pyval \<Rightarrow> bool" where
  "truthy (PBool b) = b"
| "truthy (PInt i) = (i \<noteq> 0)"
| "truthy (PFloat f) = (f \<noteq> Finite 0)"
| "truthy (PStr s) = (s \<noteq> [])"
| "truthy (PList xs) = (xs \<noteq> [])"

section \<open>The host's objects\<close>

datatype call =
    SetValue pyval "nat option"       \<comment> \<open>\<open>knob.setValue(v)\<close>, \<open>knob.setValue(v, i)\<close>\<close>
  | SetExpression string "nat option" \<comment> \<open>\<open>knob.setExpression(e)\<close>, \<open>knob.setExpression(e, i)\<close>\<close>

text \<open>
  A knob is a host object. Its classes are the answers of \<open>isinstance\<close>; \<open>k_arraySize\<close>,
  \<open>k_visible\<close> and \<open>k_enabled\<close> are \<open>None\<close> when the query raises an \<open>Exception\<close>;
  \<open>k_host\<close> is the host's answer to a mutating call, given the calls the knob has
  accepted so far: \<open>None\<close> when the call is accepted, the exception raised otherwise.
  A call that raises leaves the knob as it was.
\<close>

record knob =
  k_name :: string
  is_String_Knob :: bool
  is_Enumeration_Knob :: bool
  is_Tab_Knob :: bool
  is_Text_Knob :: bool
  is_PyScript_Knob :: bool
  k_values :: "string list"
  k_value :: pyval
  k_arraySize :: "int option"
  k_visible :: "bool option"
  k_enabled :: "bool option"
  k_host :: "call list \<Rightarrow> call \<Rightarrow> exc option"

record node =
  n_name :: string
  n_Class :: string
  n_knobs :: "(string \<times> knob) list"

definition knob_names :: "node \<Rightarrow> string set" where
  \<comment> \<open>\<open>set(node.knobs().keys())\<close>\<close>
  "knob_names n = set (map fst (n_knobs n))"

definition node_knob :: "node \<Rightarrow> string \<Rightarrow> knob option" where
  \<comment> \<open>\<open>node.knob(name)\<close>: \<open>None\<close> when the node has no such knob\<close>
  "node_knob n name = map_of (n_knobs n) name"

definition host_call :: "knob \<Rightarrow> call list \<Rightarrow> call \<Rightarrow> call list \<times> exc option" where
  \<comment> \<open>one mutating call: the calls accepted so far, extended when the host accepts\<close>
  "host_call k calls c =
     (case k_host k calls c of
        None \<Rightarrow> (calls @ [c], None)
      | Some e \<Rightarrow> (calls, Some e))"

datatype event =
    UndoBegin string
  | UndoEnd
  | KnobCall string call   \<comment> \<open>a mutating call accepted by a knob of the named node\<close>
  | ShowMessage string

section \<open>\<open>MassKnobModifier/MassKnobModifier.py\<close>\<close>

definition EXCLUDE_KNOBS :: "string set" where
  "EXCLUDE_KNOBS = set [''autolabel'', ''bookmark'', ''cached'', ''enable'',
     ''enable_mix_luminance'', ''help'', ''hide_input'', ''tile_color'', ''gl_color'',
     ''icon'', ''indicators'', ''inject'', ''Mask'', ''maskFrom'', ''maskFromFlag'',
     ''mix_luminance'', ''note_font_color'', ''onDestroy'', ''panel'', ''process_mask'',
     ''postage_stamp'', ''postage_stamp_frame'', ''useLifetime'', ''selected'', ''xpos'',
     ''ypos'']"

subsection \<open>\<open>_coerce_for_knob\<close>\<close>

fun first_index :: "('a \<Rightarrow> bool) \<Rightarrow> 'a list \<Rightarrow> nat option" where
  "first_index P [] = None"
| "first_index P (x # xs) =
     (if P x then Some 0 else map_option Suc (first_index P xs))"

definition coerce_for_knob :: "builtins \<Rightarrow> knob \<Rightarrow> pyval \<Rightarrow> pyval" where
  "coerce_for_knob E knob parsed =
     (if is_String_Knob knob
      then (case parsed of
              PList xs \<Rightarrow> PStr (join '', '' (map (py_str E) xs))
            | _ \<Rightarrow> PStr (py_str E parsed))
      else if is_Enumeration_Knob knob
      then (case parsed of
              PStr s \<Rightarrow>
                (let opts = k_values knob
                 in case first_index (\<lambda>opt. opt = s) opts of
                      Some i \<Rightarrow> PInt (int i)
                    | None \<Rightarrow>
                        (let low = lower s
                         in case first_index (\<lambda>opt. lower opt = low) opts of
                              Some i \<Rightarrow> PInt (int i)
                            | None \<Rightarrow> parsed))
            | _ \<Rightarrow> parsed)
      else parsed)"

subsection \<open>\<open>_set_knob_value_or_expression\<close>\<close>

fun set_expression_loop ::
  "knob \<Rightarrow> string \<Rightarrow> nat list \<Rightarrow> call list \<Rightarrow> call list \<times> exc option" where
  \<comment> \<open>\<open>for i in range(n)\<close>: the indices still to bind\<close>
  "set_expression_loop knob expr [] calls = (calls, None)"
| "set_expression_loop knob expr (i # is) calls =
     (case host_call knob calls (SetExpression expr (Some i)) of
        (calls', None) \<Rightarrow> set_expression_loop knob expr is calls'
      | (calls', Some e) \<Rightarrow>
          if is_TypeError e then host_call knob calls' (SetExpression expr None)
          else (calls', Some e))"

fun set_value_loop ::
  "knob \<Rightarrow> pyval list \<Rightarrow> nat \<Rightarrow> pyval list \<Rightarrow> call list \<Rightarrow> call list \<times> exc option" where
  \<comment> \<open>\<open>for i, val in enumerate(parsed)\<close>: the whole list, the next index, the values
      still to assign\<close>
  "set_value_loop knob parsed i [] calls = (calls, None)"
| "set_value_loop knob parsed i (val # vals) calls =
     (case host_call knob calls (SetValue val (Some i)) of
        (calls', None) \<Rightarrow> set_value_loop knob parsed (Suc i) vals calls'
      | (calls', Some e) \<Rightarrow>
          if is_TypeError e then host_call knob calls' (SetValue (PList parsed) None)
          else (calls', Some e))"

definition label_text :: "builtins \<Rightarrow> knob \<Rightarrow> pyval \<Rightarrow> pyval" where
  \<comment> \<open>the \<open>try\<close> block for the knob named \<open>label\<close> (in value mode \<open>s\<close> never starts with
      \<open>=\<close>); an \<open>existing\<close> value that is true and has no \<open>strip\<close> raises
      \<open>AttributeError\<close>, which the block swallows\<close>
  "label_text E knob parsed =
     (if k_name knob = ''label''
      then (let existing = k_value knob;
                new_text = py_str E parsed
            in if \<not> truthy existing then PStr new_text
               else (case existing of
                       PStr ex \<Rightarrow>
                         if strip ex \<noteq> [] then PStr (rstrip ex @ [CHR 0x0A] @ new_text)
                         else PStr new_text
                     | _ \<Rightarrow> parsed))
      else parsed)"

definition set_knob_value_or_expression ::
  "builtins \<Rightarrow> knob \<Rightarrow> string option \<Rightarrow> call list \<Rightarrow> call list \<times> (exc + string)" where
  "set_knob_value_or_expression E knob raw_value_str calls =
     (case raw_value_str of
        None \<Rightarrow> (calls, Inl (ValueError ''Empty value.''))
      | Some raw \<Rightarrow>
          (let s = strip raw
           in if s = [] then (calls, Inl (ValueError ''Empty value.''))
              else if take 1 s = ''=''
              then (let expr = strip (drop 1 s)
                    in if expr = [] then (calls, Inl (ValueError ''Empty expression.''))
                       else
                         (let n = (case k_arraySize knob of None \<Rightarrow> 1 | Some m \<Rightarrow> m);
                              r = (if n > 1
                                   then set_expression_loop knob expr [0..<nat n] calls
                                   else host_call knob calls (SetExpression expr None))
                          in case snd r of
                               Some e \<Rightarrow> (fst r, Inl e)
                             | None \<Rightarrow> (fst r, Inr ''expression'')))
              else
                (case parse_value (Some s) of
                   Inl e \<Rightarrow> (calls, Inl e)
                 | Inr parsed0 \<Rightarrow>
                     (let parsed = label_text E knob (coerce_for_knob E knob parsed0);
                          r = (case parsed of
                                 PList xs \<Rightarrow> set_value_loop knob xs 0 xs calls
                               | _ \<Rightarrow> host_call knob calls (SetValue parsed None))
                      in case snd r of
                           Some e \<Rightarrow> (fst r, Inl e)
                         | None \<Rightarrow> (fst r, Inr ''value'')))))"

subsection \<open>\<open>_nodes_by_class\<close>\<close>

definition nodes_by_class :: "node list \<Rightarrow> string option \<Rightarrow> node list" where
  \<comment> \<open>the first argument is what \<open>_all_nodes_root\<close> returns\<close>
  "nodes_by_class all_nodes class_name =
     (case class_name of
        None \<Rightarrow> []
      | Some c \<Rightarrow>
          (let target = strip c
           in if target = [] then []
              else (let exact = filter (\<lambda>n. n_Class n = target) all_nodes
                    in if exact \<noteq> [] then exact
                       else (let t_low = lower target
                             in filter (\<lambda>n. lower (n_Class n) = t_low) all_nodes))))"

subsection \<open>\<open>_common_knobs_for_nodes\<close>\<close>

definition hidden :: "knob \<Rightarrow> bool" where
  \<comment> \<open>\<open>not knob.visible() or not knob.enabled()\<close>, a query that raises meaning "keep"\<close>
  "hidden knob =
     (case k_visible knob of
        None \<Rightarrow> False
      | Some vis \<Rightarrow>
          if \<not> vis then True
          else (case k_enabled knob of None \<Rightarrow> False | Some en \<Rightarrow> \<not> en))"

fun visible_common_loop :: "node \<Rightarrow> string list \<Rightarrow> string list \<Rightarrow> string list" where
  \<comment> \<open>\<open>for k in common\<close>: the first node, the names still to visit, \<open>visible_common\<close>\<close>
  "visible_common_loop first [] visible_common = visible_common"
| "visible_common_loop first (k # ks) visible_common =
     (case node_knob first k of
        None \<Rightarrow> visible_common_loop first ks visible_common
      | Some knob \<Rightarrow>
          if k \<in> set [''knobChanged'', ''onCreate'', ''updateUI'']
          then visible_common_loop first ks visible_common
          else if hidden knob then visible_common_loop first ks visible_common
          else if is_Tab_Knob knob \<or> is_Text_Knob knob \<or> is_PyScript_Knob knob
          then visible_common_loop first ks visible_common
          else visible_common_loop first ks (visible_common @ [k]))"

text \<open>
  Python iterates a set in an order of its own: \<open>iter\<close> is that order, a list of the
  members of the set.
\<close>

definition common_knobs_for_nodes :: "(string set \<Rightarrow> string list) \<Rightarrow> node list \<Rightarrow> string list" where
  "common_knobs_for_nodes iter nodes =
     (case nodes of
        [] \<Rightarrow> []
      | first # rest \<Rightarrow>
          (let common = fold (\<lambda>node c. c \<inter> knob_names node) rest (knob_names first)
           in if common = {} then []
              else (let common' = common - EXCLUDE_KNOBS
                    in sorted_list_of_set (set (visible_common_loop first (iter common') [])))))"

definition selected_node_class :: "node list \<Rightarrow> string option" where
  "selected_node_class sel = (case sel of [] \<Rightarrow> None | n # ns \<Rightarrow> Some (n_Class n))"

subsection \<open>\<open>mass_knob_modifier\<close>\<close>

text \<open>
  What the modal panel hands back: whether it was accepted, and the values of its knobs.
\<close>

record dialog =
  d_accepted :: bool
  d_mode :: string
  d_class :: string
  d_knob :: string
  d_value :: "string option"

type_synonym tally = "nat \<times> string list \<times> string option"
  \<comment> \<open>\<open>changed\<close>, \<open>errors\<close>, \<open>mode_used\<close>\<close>

fun apply_loop ::
  "builtins \<Rightarrow> string \<Rightarrow> string option \<Rightarrow> node list \<Rightarrow> tally \<Rightarrow> event list
     \<Rightarrow> tally \<times> event list \<times> exc option" where
  \<comment> \<open>\<open>for node in targets\<close>; the last component is the exception that left the loop\<close>
  "apply_loop E knob_name value_str [] t events = (t, events, None)"
| "apply_loop E knob_name value_str (node # targets) (changed, errors, mode_used) events =
     (case node_knob node knob_name of
        None \<Rightarrow> apply_loop E knob_name value_str targets (changed, errors, mode_used) events
      | Some k \<Rightarrow>
          (let r = set_knob_value_or_expression E k value_str [];
               events' = events @ map (KnobCall (n_name node)) (fst r)
           in case snd r of
                Inr m \<Rightarrow>
                  apply_loop E knob_name value_str targets (changed + 1, errors, Some m) events'
              | Inl e \<Rightarrow>
                  if is_Exception e
                  then apply_loop E knob_name value_str targets
                         (changed, errors @ [n_name node @ '': '' @ exc_msg e], mode_used) events'
                  else ((changed, errors, mode_used), events', Some e)))"

definition apply_changes ::
  "builtins \<Rightarrow> node list \<Rightarrow> string \<Rightarrow> string option \<Rightarrow> event list
     \<Rightarrow> tally \<times> event list \<times> exc option" where
  \<comment> \<open>the undo transaction around the loop: \<open>finally\<close> runs on both ways out\<close>
  "apply_changes E targets knob_name value_str events =
     (let r = apply_loop E knob_name value_str targets (0, [], None)
                (events @ [UndoBegin ''Mass Knob Modifier''])
      in case snd (snd r) of
           None \<Rightarrow> (fst r, fst (snd r) @ [UndoEnd], None)
         | Some e \<Rightarrow> (fst r, fst (snd r) @ [UndoEnd], Some e))"

definition resolve_targets ::
  "node list \<Rightarrow> node list \<Rightarrow> dialog \<Rightarrow> string + (node list \<times> string option)" where
  \<comment> \<open>the three modes: a message to show, or the targets and \<open>target_class\<close>\<close>
  "resolve_targets selected all_nodes dlg =
     (if d_mode dlg = ''by class''
      then (case nodes_by_class all_nodes (Some (d_class dlg)) of
              [] \<Rightarrow> Inl (''No nodes found with class '' @ [CHR 0x27] @ d_class dlg @ [CHR 0x27]
                         @ ''.'' @ [CHR 0x0A] @ ''Examples: Merge2, Blur, Grade'')
            | n # ns \<Rightarrow> Inr (n # ns, Some (n_Class n)))
      else if d_mode dlg = ''by class from selection''
      then (case selected_node_class selected of
              None \<Rightarrow> Inl ''Select a node first (to choose the class).''
            | Some c \<Rightarrow>
                if c = [] then Inl ''Select a node first (to choose the class).''
                else (case nodes_by_class all_nodes (Some c) of
                        [] \<Rightarrow> Inl (''No nodes found with class '' @ [CHR 0x27] @ c @ [CHR 0x27] @ ''.'')
                      | n # ns \<Rightarrow> Inr (n # ns, Some (n_Class n))))
      else (case selected of
              [] \<Rightarrow> Inl ''No nodes selected.''
            | n # ns \<Rightarrow> Inr (n # ns, None)))"

definition shown_value :: "string \<Rightarrow> string" where
  "shown_value value_str =
     (let s = strip value_str in if take 1 s = ''='' then strip (drop 1 s) else s)"

definition error_lines :: "string list \<Rightarrow> string" where
  "error_lines errors =
     (if errors = [] then []
      else [CHR 0x0A] @ ''Errors: '' @ str_of_nat (length errors)
           @ [CHR 0x0A] @ join [CHR 0x0A] (take 10 errors)
           @ (if length errors > 10 then [CHR 0x0A] @ ''...'' else []))"

definition report_message :: "string \<Rightarrow> string \<Rightarrow> string option \<Rightarrow> tally \<Rightarrow> string" where
  "report_message knob_name value_str target_class t =
     (case t of (changed, errors, mode_used) \<Rightarrow>
        ''Changed '' @ [CHR 0x27] @ knob_name @ [CHR 0x27]
        @ (if mode_used = Some ''expression'' then '' expression to '' else '' to '')
        @ shown_value value_str
        @ (case target_class of
             None \<Rightarrow> '' on '' @ str_of_nat changed @ '' nodes.''
           | Some c \<Rightarrow>
               if c = [] then '' on '' @ str_of_nat changed @ '' nodes.''
               else '' on all '' @ str_of_nat changed @ '' '' @ c @ '' nodes.'')
        @ error_lines errors)"

definition mass_knob_modifier ::
  "builtins \<Rightarrow> (string set \<Rightarrow> string list) \<Rightarrow> node list \<Rightarrow> node list \<Rightarrow> dialog
     \<Rightarrow> event list \<times> exc option" where
  \<comment> \<open>the selected nodes, the nodes of the whole script, the panel's answer; the result is
      what the host saw, and the exception that left the function, if one did\<close>
  "mass_knob_modifier E iter selected all_nodes dlg =
     (if \<not> d_accepted dlg then ([], None)
      else
        (case d_value dlg of
           None \<Rightarrow> ([ShowMessage ''Value cannot be empty.''], None)
         | Some value_str \<Rightarrow>
             if strip value_str = [] then ([ShowMessage ''Value cannot be empty.''], None)
             else
               (case resolve_targets selected all_nodes dlg of
                  Inl msg \<Rightarrow> ([ShowMessage msg], None)
                | Inr (targets, target_class) \<Rightarrow>
                    (case common_knobs_for_nodes iter targets of
                       [] \<Rightarrow> ([ShowMessage ''No usable common knobs found.''], None)
                     | item # items \<Rightarrow>
                         (let knob_name =
                                (if d_knob dlg \<in> set (item # items) then d_knob dlg else item);
                              r = apply_changes E targets knob_name (Some value_str) []
                          in case snd (snd r) of
                               Some e \<Rightarrow> (fst (snd r), Some e)
                             | None \<Rightarrow>
                                 (fst (snd r)
                                    @ [ShowMessage
                                         (report_message knob_name value_str target_class (fst r))],
                                  None))))))"

section \<open>The older \<open>MassKnobModifier.py\<close>\<close>

subsection \<open>\<open>_set_knob_value_or_expression\<close>\<close>

fun set_expression_loop_v1 ::
  "knob \<Rightarrow> string \<Rightarrow> nat list \<Rightarrow> call list \<Rightarrow> call list \<times> exc option" where
  "set_expression_loop_v1 knob expr [] calls = (calls, None)"
| "set_expression_loop_v1 knob expr (i # is) calls =
     (case host_call knob calls (SetExpression expr (Some i)) of
        (calls', None) \<Rightarrow> set_expression_loop_v1 knob expr is calls'
      | (calls', Some e) \<Rightarrow>
          if is_TypeError e then host_call knob calls' (SetExpression expr None)
          else (calls', Some e))"

fun set_value_loop_v1 ::
  "knob \<Rightarrow> pyval list \<Rightarrow> nat \<Rightarrow> pyval list \<Rightarrow> call list \<Rightarrow> call list \<times> exc option" where
  "set_value_loop_v1 knob parsed i [] calls = (calls, None)"
| "set_value_loop_v1 knob parsed i (val # vals) calls =
     (case host_call knob calls (SetValue val (Some i)) of
        (calls', None) \<Rightarrow> set_value_loop_v1 knob parsed (Suc i) vals calls'
      | (calls', Some e) \<Rightarrow>
          if is_TypeError e then host_call knob calls' (SetValue (PList parsed) None)
          else (calls', Some e))"

definition set_knob_value_or_expression_v1 ::
  "knob \<Rightarrow> string option \<Rightarrow> call list \<Rightarrow> call list \<times> (exc + string)" where
  "set_knob_value_or_expression_v1 knob raw_value_str calls =
     (case raw_value_str of
        None \<Rightarrow> (calls, Inl (ValueError ''Empty value.''))
      | Some raw \<Rightarrow>
          (let s = strip raw
           in if s = [] then (calls, Inl (ValueError ''Empty value.''))
              else if take 1 s = ''=''
              then (let expr = strip (drop 1 s)
                    in if expr = [] then (calls, Inl (ValueError ''Empty expression.''))
                       else
                         (let n = (case k_arraySize knob of None \<Rightarrow> 1 | Some m \<Rightarrow> m);
                              r = (if n > 1
                                   then set_expression_loop_v1 knob expr [0..<nat n] calls
                                   else host_call knob calls (SetExpression expr None))
                          in case snd r of
                               Some e \<Rightarrow> (fst r, Inl e)
                             | None \<Rightarrow> (fst r, Inr ''expression'')))
              else
                (case parse_value_v1 (Some s) of
                   Inl e \<Rightarrow> (calls, Inl e)
                 | Inr parsed \<Rightarrow>
                     (let r = (case parsed of
                                 PList xs \<Rightarrow> set_value_loop_v1 knob xs 0 xs calls
                               | _ \<Rightarrow> host_call knob calls (SetValue parsed None))
                      in case snd r of
                           Some e \<Rightarrow> (fst r, Inl e)
                         | None \<Rightarrow> (fst r, Inr ''value'')))))"

subsection \<open>\<open>mass_knob_modifier\<close>\<close>

fun visible_common_loop_v1 :: "node \<Rightarrow> string list \<Rightarrow> string list \<Rightarrow> string list" where
  "visible_common_loop_v1 first [] visible_common = visible_common"
| "visible_common_loop_v1 first (k # ks) visible_common =
     (case node_knob first k of
        None \<Rightarrow> visible_common_loop_v1 first ks visible_common
      | Some knob \<Rightarrow>
          if k \<in> set [''knobChanged'', ''onCreate'', ''updateUI'']
          then visible_common_loop_v1 first ks visible_common
          else if hidden knob then visible_common_loop_v1 first ks visible_common
          else if is_Tab_Knob knob \<or> is_Text_Knob knob \<or> is_PyScript_Knob knob
          then visible_common_loop_v1 first ks visible_common
          else visible_common_loop_v1 first ks (visible_common @ [k]))"

definition visible_common_v1 ::
  "(string set \<Rightarrow> string list) \<Rightarrow> node list \<Rightarrow> string + string list" where
  \<comment> \<open>the first part of the function, up to the panel: the message shown when it gives up,
      or the list \<open>visible_common\<close> the panel is built with\<close>
  "visible_common_v1 iter nodes =
     (case nodes of
        [] \<Rightarrow> Inl ''No nodes selected.''
      | first # rest \<Rightarrow>
          (let common = fold (\<lambda>node c. c \<inter> knob_names node) rest (knob_names first)
           in if common = {} then Inl ''No common knobs found.''
              else (let common' = common - EXCLUDE_KNOBS;
                        visible_common =
                          sorted_list_of_set (set (visible_common_loop_v1 first (iter common') []))
                    in if visible_common = [] then Inl ''No usable common knobs found.''
                       else Inr visible_common)))"

fun apply_loop_v1 ::
  "string \<Rightarrow> string option \<Rightarrow> node list \<Rightarrow> tally \<Rightarrow> event list
     \<Rightarrow> tally \<times> event list \<times> exc option" where
  "apply_loop_v1 knob_name value_str [] t events = (t, events, None)"
| "apply_loop_v1 knob_name value_str (node # nodes) (changed, errors, mode_used) events =
     (case node_knob node knob_name of
        None \<Rightarrow> apply_loop_v1 knob_name value_str nodes (changed, errors, mode_used) events
      | Some knob \<Rightarrow>
          (let r = set_knob_value_or_expression_v1 knob value_str [];
               events' = events @ map (KnobCall (n_name node)) (fst r)
           in case snd r of
                Inr m \<Rightarrow>
                  apply_loop_v1 knob_name value_str nodes (changed + 1, errors, Some m) events'
              | Inl e \<Rightarrow>
                  if is_Exception e
                  then apply_loop_v1 knob_name value_str nodes
                         (changed, errors @ [n_name node @ '': '' @ exc_msg e], mode_used) events'
                  else ((changed, errors, mode_used), events', Some e)))"

definition apply_changes_v1 ::
  "node list \<Rightarrow> string \<Rightarrow> string option \<Rightarrow> event list \<Rightarrow> tally \<times> event list \<times> exc option" where
  "apply_changes_v1 nodes knob_name value_str events =
     (let r = apply_loop_v1 knob_name value_str nodes (0, [], None)
                (events @ [UndoBegin ''Mass Knob Modifier''])
      in case snd (snd r) of
           None \<Rightarrow> (fst r, fst (snd r) @ [UndoEnd], None)
         | Some e \<Rightarrow> (fst r, fst (snd r) @ [UndoEnd], Some e))"

definition report_message_v1 :: "string \<Rightarrow> string \<Rightarrow> tally \<Rightarrow> string" where
  "report_message_v1 knob_name value_str t =
     (case t of (changed, errors, mode_used) \<Rightarrow>
        ''Changed '' @ [CHR 0x27] @ knob_name @ [CHR 0x27]
        @ (if mode_used = Some ''expression'' then '' expression to '' else '' to '')
        @ shown_value value_str
        @ '' on '' @ str_of_nat changed @ '' nodes.''
        @ error_lines errors)"

definition mass_knob_modifier_v1 ::
  "(string set \<Rightarrow> string list) \<Rightarrow> node list \<Rightarrow> dialog \<Rightarrow> event list \<times> exc option" where
  \<comment> \<open>of the panel's answer this version reads \<open>d_accepted\<close>, \<open>d_knob\<close> and \<open>d_value\<close>\<close>
  "mass_knob_modifier_v1 iter nodes dlg =
     (case visible_common_v1 iter nodes of
        Inl msg \<Rightarrow> ([ShowMessage msg], None)
      | Inr visible_common \<Rightarrow>
          if \<not> d_accepted dlg then ([], None)
          else if strip (d_knob dlg) = [] then ([ShowMessage ''Please choose a knob.''], None)
          else
            (case d_value dlg of
               None \<Rightarrow> ([ShowMessage ''Value cannot be empty.''], None)
             | Some value_str \<Rightarrow>
                 if strip value_str = [] then ([ShowMessage ''Value cannot be empty.''], None)
                 else
                   (let r = apply_changes_v1 nodes (d_knob dlg) (Some value_str) []
                    in case snd (snd r) of
                         Some e \<Rightarrow> (fst (snd r), Some e)
                       | None \<Rightarrow>
                           (fst (snd r)
                              @ [ShowMessage (report_message_v1 (d_knob dlg) value_str (fst r))],
                            None))))"

section \<open>The specification's wording\<close>

definition ieq :: "string \<Rightarrow> string \<Rightarrow> bool" where
  \<comment> \<open>equal when case is ignored\<close>
  "ieq a b = (lower a = lower b)"

definition numeric :: "string \<Rightarrow> pyval option" where
  \<comment> \<open>a float when the text has a point or the letter e, else an integer\<close>
  "numeric t =
     (if CHR ''.'' \<in> set t \<or> CHR ''e'' \<in> set t \<or> CHR ''E'' \<in> set t
      then map_option PFloat (py_float t) else map_option PInt (py_int t))"

definition literal_of :: "string \<Rightarrow> pyval" where
  \<comment> \<open>the literal a trimmed, non-empty text denotes, in the order the specification gives\<close>
  "literal_of v =
     (if ieq v ''true'' \<or> ieq v ''yes'' \<or> ieq v ''on'' then PBool True
      else if ieq v ''false'' \<or> ieq v ''no'' \<or> ieq v ''off'' then PBool False
      else (case numeric v of
              Some x \<Rightarrow> x
            | None \<Rightarrow>
                if CHR '','' \<in> set v
                then (case those (map numeric (map strip (split_comma v))) of
                        Some xs \<Rightarrow> PList xs
                      | None \<Rightarrow> PList (map PStr (map strip (split_comma v))))
                else PStr v))"

definition string_form :: "builtins \<Rightarrow> pyval \<Rightarrow> string" where
  \<comment> \<open>the string form of a value; a list is joined with a comma and a space\<close>
  "string_form E v =
     (case v of PList xs \<Rightarrow> join '', '' (map (py_str E) xs) | _ \<Rightarrow> py_str E v)"

definition assign_once :: "knob \<Rightarrow> call list \<Rightarrow> pyval \<Rightarrow> call list \<times> (exc + string)" where
  \<comment> \<open>one assignment of the whole value: mode \<open>value\<close> when the host accepts it, the
      host's exception otherwise\<close>
  "assign_once k calls v =
     (case k_host k calls (SetValue v None) of
        None \<Rightarrow> (calls @ [SetValue v None], Inr ''value'')
      | Some e \<Rightarrow> (calls, Inl e))"

definition expr_binds :: "string \<Rightarrow> nat \<Rightarrow> nat \<Rightarrow> call list" where
  \<comment> \<open>the expression bound at each index from \<open>m\<close> up to \<open>n\<close>, \<open>n\<close> left out\<close>
  "expr_binds expr m n = map (\<lambda>i. SetExpression expr (Some i)) [m..<n]"

definition bind_result :: "call list \<times> exc option \<Rightarrow> call list \<times> (exc + string)" where
  \<comment> \<open>mode \<open>expression\<close> once the binding calls did not raise\<close>
  "bind_result r = (case snd r of Some e \<Rightarrow> (fst r, Inl e) | None \<Rightarrow> (fst r, Inr ''expression''))"

definition arity :: "knob \<Rightarrow> int" where
  \<comment> \<open>the array arity of the knob, 1 when the query fails\<close>
  "arity k = (case k_arraySize k of None \<Rightarrow> 1 | Some n \<Rightarrow> n)"

definition editable :: "node \<Rightarrow> string \<Rightarrow> bool" where
  \<comment> \<open>the first target has the knob, it is no lifecycle hook, not hidden, not structural\<close>
  "editable first k =
     (case node_knob first k of
        None \<Rightarrow> False
      | Some knob \<Rightarrow>
          k \<notin> {''knobChanged'', ''onCreate'', ''updateUI''} \<and> \<not> hidden knob
          \<and> \<not> (is_Tab_Knob knob \<or> is_Text_Knob knob \<or> is_PyScript_Knob knob))"

definition common_names :: "node list \<Rightarrow> string set" where
  \<comment> \<open>the names every target has\<close>
  "common_names nodes = (\<Inter>n\<in>set nodes. knob_names n)"

definition outcome ::
  "builtins \<Rightarrow> string \<Rightarrow> string option \<Rightarrow> node \<Rightarrow> (call list \<times> (exc + string)) option" where
  \<comment> \<open>what applying the value does on a target: nothing when it has no such knob\<close>
  "outcome E knob_name value_str t =
     map_option (\<lambda>k. set_knob_value_or_expression E k value_str []) (node_knob t knob_name)"

definition applied :: "builtins \<Rightarrow> string \<Rightarrow> string option \<Rightarrow> node \<Rightarrow> bool" where
  \<comment> \<open>the target has the knob and the application returned\<close>
  "applied E knob_name value_str t =
     (case outcome E knob_name value_str t of Some (calls, Inr m) \<Rightarrow> True | _ \<Rightarrow> False)"

definition failed :: "builtins \<Rightarrow> string \<Rightarrow> string option \<Rightarrow> node \<Rightarrow> bool" where
  \<comment> \<open>the target has the knob and the application raised\<close>
  "failed E knob_name value_str t =
     (case outcome E knob_name value_str t of Some (calls, Inl e) \<Rightarrow> True | _ \<Rightarrow> False)"

definition escapes :: "builtins \<Rightarrow> string \<Rightarrow> string option \<Rightarrow> node \<Rightarrow> bool" where
  \<comment> \<open>the application raised what \<open>except Exception\<close> does not catch\<close>
  "escapes E knob_name value_str t =
     (case outcome E knob_name value_str t of
        Some (calls, Inl e) \<Rightarrow> \<not> is_Exception e | _ \<Rightarrow> False)"

definition error_entry :: "builtins \<Rightarrow> string \<Rightarrow> string option \<Rightarrow> node \<Rightarrow> string" where
  \<comment> \<open>the entry \<open><target-name>: <error message>\<close> of a failing target\<close>
  "error_entry E knob_name value_str t =
     (case outcome E knob_name value_str t of
        Some (calls, Inl e) \<Rightarrow> n_name t @ '': '' @ exc_msg e | _ \<Rightarrow> [])"

definition calls_on :: "builtins \<Rightarrow> string \<Rightarrow> string option \<Rightarrow> node \<Rightarrow> event list" where
  \<comment> \<open>the calls the knob of the target accepted\<close>
  "calls_on E knob_name value_str t =
     (case outcome E knob_name value_str t of
        Some (calls, r) \<Rightarrow> map (KnobCall (n_name t)) calls | None \<Rightarrow> [])"

fun is_undo :: "event \<Rightarrow> bool" where
  \<comment> \<open>the opening and the closing of a transaction\<close>
  "is_undo (UndoBegin label) = True"
| "is_undo UndoEnd = True"
| "is_undo e = False"

definition undo_events :: "event list \<Rightarrow> event list" where
  \<comment> \<open>what the undo stack of the host saw\<close>
  "undo_events events = filter is_undo events"

section \<open>Example objects\<close>

text \<open>
  Knobs, nodes and a panel answer on which the theorems below are instantiated.
\<close>

definition ex_builtins :: builtins where
  "ex_builtins =
     \<lparr>float_repr = (\<lambda>f. ''<float>''), str_repr = (\<lambda>s. [CHR 0x27] @ s @ [CHR 0x27])\<rparr>"

definition ex_knob :: knob where
  \<comment> \<open>a numeric knob the host never refuses\<close>
  "ex_knob = \<lparr>k_name = ''size'', is_String_Knob = False, is_Enumeration_Knob = False,
     is_Tab_Knob = False, is_Text_Knob = False, is_PyScript_Knob = False, k_values = [],
     k_value = PFloat (Finite 1), k_arraySize = Some 1, k_visible = Some True,
     k_enabled = Some True, k_host = (\<lambda>calls c. None)\<rparr>"

definition ex_frame :: knob where
  "ex_frame = ex_knob\<lparr>k_name := ''frame'', is_String_Knob := True, k_value := PStr ''1''\<rparr>"

definition ex_filter :: knob where
  "ex_filter = ex_knob\<lparr>k_name := ''filter'', is_Enumeration_Knob := True,
     k_values := [''nearest'', ''bilinear'', ''cubic''], k_value := PStr ''nearest''\<rparr>"

definition ex_label :: knob where
  "ex_label = ex_knob\<lparr>k_name := ''label'', is_String_Knob := True, k_value := PStr ''Pass1''\<rparr>"

definition ex_array :: knob where
  "ex_array = ex_knob\<lparr>k_name := ''translate'', k_arraySize := Some 3\<rparr>"

definition ex_no_index :: knob where
  "ex_no_index = ex_knob\<lparr>k_name := ''file'', k_arraySize := Some 2,
     k_host := (\<lambda>calls c. case c of
                  SetExpression e (Some i) \<Rightarrow> Some (TypeError ''takes one argument'')
                | SetValue v (Some i) \<Rightarrow> Some (TypeError ''takes one argument'')
                | _ \<Rightarrow> None)\<rparr>"

definition ex_hidden :: knob where
  "ex_hidden = ex_knob\<lparr>k_name := ''channels'', k_visible := Some False\<rparr>"

definition ex_tab :: knob where
  "ex_tab = ex_knob\<lparr>k_name := ''User'', is_Tab_Knob := True\<rparr>"

definition ex_blur1 :: node where
  "ex_blur1 = \<lparr>n_name = ''Blur1'', n_Class = ''Blur'',
     n_knobs = [(''size'', ex_knob), (''label'', ex_label), (''filter'', ex_filter),
                (''xpos'', ex_knob), (''onCreate'', ex_knob), (''User'', ex_tab),
                (''channels'', ex_hidden)]\<rparr>"

definition ex_blur2 :: node where
  "ex_blur2 = ex_blur1\<lparr>n_name := ''Blur2''\<rparr>"

definition ex_grade :: node where
  "ex_grade = \<lparr>n_name = ''Grade1'', n_Class = ''Grade'',
     n_knobs = [(''label'', ex_label), (''white'', ex_array), (''xpos'', ex_knob)]\<rparr>"

definition ex_rejecting :: knob where
  "ex_rejecting = ex_knob\<lparr>k_host := (\<lambda>calls c. Some (OtherException ''rejected''))\<rparr>"

definition ex_interrupted :: knob where
  "ex_interrupted = ex_knob\<lparr>k_host := (\<lambda>calls c. Some (NonException ''KeyboardInterrupt''))\<rparr>"

definition ex_t3 :: node where
  "ex_t3 = \<lparr>n_name = ''T3'', n_Class = ''Blur'', n_knobs = [(''size'', ex_rejecting)]\<rparr>"

definition ex_stop :: node where
  "ex_stop = \<lparr>n_name = ''Stop'', n_Class = ''Blur'', n_knobs = [(''size'', ex_interrupted)]\<rparr>"

definition ex_iter_rev :: "string set \<Rightarrow> string list" where
  \<comment> \<open>an iteration order: the names from the last to the first\<close>
  "ex_iter_rev S = rev (sorted_list_of_set S)"

definition ex_dialog :: dialog where
  "ex_dialog = \<lparr>d_accepted = True, d_mode = ''by selection'', d_class = [], d_knob = ''size'',
     d_value = Some ''= ''\<rparr>"

section \<open>Properties of the literal parser\<close>

lemma lower_char_e: "lower_char c = CHR ''e'' \<longleftrightarrow> c = CHR ''e'' \<or> c = CHR ''E''"
proof -
  have E: "(of_char c :: nat) = 69 \<longleftrightarrow> c = CHR ''E''"
    using of_char_eq_iff [of c "CHR ''E''", where ?'a = nat] by simp
  have lt: "(of_char c :: nat) < 256" by simp
  show ?thesis
    unfolding lower_char_def Let_def
    using E lt by (auto simp: char_of_eq_iff take_bit_eq_mod)
qed

lemma e_in_lower: "CHR ''e'' \<in> set (lower t) \<longleftrightarrow> CHR ''e'' \<in> set t \<or> CHR ''E'' \<in> set t"
proof -
  have "CHR ''e'' \<in> set (lower t) \<longleftrightarrow> (\<exists>c\<in>set t. lower_char c = CHR ''e'')"
    unfolding lower_def by (auto simp: image_iff) metis
  then show ?thesis unfolding lower_char_e by blast
qed

lemma numeric_eq:
  "(if CHR ''.'' \<in> set p \<or> CHR ''e'' \<in> set (lower p)
    then map_option PFloat (py_float p) else map_option PInt (py_int p)) = numeric p"
  by (simp add: numeric_def e_in_lower)

lemma parse_parts_those:
  "parse_parts parts parsed ps =
     (case those (map numeric ps) of
        Some xs \<Rightarrow> PList (parsed @ xs)
      | None \<Rightarrow> PList (map PStr parts))"
  by (induction ps arbitrary: parsed) (auto simp: numeric_eq split: option.splits)

lemma lower_words:
  "lower ''true'' = ''true''" "lower ''yes'' = ''yes''" "lower ''on'' = ''on''"
  "lower ''false'' = ''false''" "lower ''no'' = ''no''" "lower ''off'' = ''off''"
  by (simp_all add: lower_def lower_char_def)

lemma eq_char_of_iff: "c = char_of n \<longleftrightarrow> take_bit 8 n = (of_char c :: nat)"
  using char_of_eq_iff [of n c] by auto

lemmas eval_text =
  strip_def lstrip_def rstrip_def isspace_def lower_def lower_char_def py_int_def
  py_float_def split_sign_def isdigit_def nat_of_digits_def digit_val_def float_number_def
  float_exponent_def pow10_def char_of_eq_iff eq_char_of_iff take_bit_eq_mod

lemma parse_value_literal:
  "parse_value (Some raw) =
     (if strip raw = [] then Inl (ValueError ''Empty value.'')
      else Inr (literal_of (strip raw)))"
  by (simp add: parse_value_def Let_def literal_of_def ieq_def lower_words numeric_eq
      parse_parts_those split: option.splits)

text \<open>
  Claim C1. Whatever the input string, \<open>_parse_value\<close> trims it and, unless nothing is
  left (then it raises \<open>ValueError("Empty value.")\<close>), returns the literal the trimmed
  text denotes in this order: true/yes/on and false/no/off, case ignored, are the
  booleans; else a text with a point or the letter e is read as a float and any other as
  an integer, a failure falling through; else a text with a comma is split at the
  commas, each part trimmed and read as a number by the same rule, and is the list of
  the trimmed parts as strings as soon as one part is no number; else it is the trimmed
  text itself.
\<close>

theorem parse_value_order:
  "parse_value (Some raw) =
     (if strip raw = [] then Inl (ValueError ''Empty value.'')
      else Inr (literal_of (strip raw)))"
  by (rule parse_value_literal)

theorem parse_value_order_witness:
  "parse_value (Some ''1,a,3'') = Inr (PList [PStr ''1'', PStr ''a'', PStr ''3''])
   \<and> parse_value (Some '' 1,2,3 '') = Inr (PList [PInt 1, PInt 2, PInt 3])
   \<and> parse_value (Some ''YES'') = Inr (PBool True)
   \<and> parse_value (Some ''3e2'') = Inr (PFloat (Finite 300))
   \<and> parse_value (Some ''hello'') = Inr (PStr ''hello'')"
  unfolding parse_value_order
  by (simp add: literal_of_def ieq_def numeric_def eval_text)

lemma parse_parts_v1_eq: "parse_parts_v1 parts parsed ps = parse_parts parts parsed ps"
  by (induction ps arbitrary: parsed) (auto split: option.splits)

lemma parse_value_v1_eq: "parse_value_v1 value_str = parse_value value_str"
  unfolding parse_value_v1_def parse_value_def parse_parts_v1_eq ..

text \<open>
  Claim C10. The two copies of \<open>_parse_value\<close>, the one of \<open>MassKnobModifier.py\<close> and the
  one of \<open>MassKnobModifier/MassKnobModifier.py\<close>, agree on every argument: the same value,
  or the same \<open>ValueError("Empty value.")\<close>.
\<close>

theorem parse_value_copies_equal: "parse_value_v1 value_str = parse_value value_str"
  by (rule parse_value_v1_eq)


section \<open>Properties of trimming\<close>

lemma rstrip_prefix: "t = rstrip t @ rev (takeWhile isspace (rev t))"
proof -
  have "rev (takeWhile isspace (rev t) @ dropWhile isspace (rev t)) = t"
    by (simp only: takeWhile_dropWhile_id rev_rev_ident)
  then show ?thesis by (simp only: rstrip_def rev_append)
qed

lemma lstrip_rstrip: "lstrip (rstrip (lstrip s)) = rstrip (lstrip s)"
proof (cases "rstrip (lstrip s)")
  case Nil
  then show ?thesis by (simp add: lstrip_def)
next
  case (Cons c cs)
  have "lstrip s = (c # cs) @ rev (takeWhile isspace (rev (lstrip s)))"
    using rstrip_prefix [of "lstrip s"] Cons by simp
  then have "lstrip s \<noteq> []" "hd (lstrip s) = c"
    by (metis Nil_is_append_conv list.distinct(1), metis append_Cons list.sel(1))
  moreover have "lstrip s \<noteq> [] \<Longrightarrow> \<not> isspace (hd (lstrip s))"
    unfolding lstrip_def by (rule hd_dropWhile)
  ultimately have "\<not> isspace c" by simp
  then have "dropWhile isspace (c # cs) = c # cs" by simp
  then have "lstrip (c # cs) = c # cs" by (simp only: lstrip_def)
  then show ?thesis by (simp only: Cons)
qed

lemma rstrip_idem: "rstrip (rstrip t) = rstrip t"
  by (simp add: rstrip_def)

lemma strip_idem: "strip (strip s) = strip s"
  by (simp add: strip_def lstrip_rstrip rstrip_idem)

section \<open>Properties of the coercion\<close>

lemmas eval_knob = ex_knob_def ex_frame_def ex_filter_def ex_label_def ex_builtins_def
  ex_array_def ex_no_index_def

lemma first_index_Some:
  "first_index P xs = Some i \<Longrightarrow> i < length xs \<and> P (xs ! i) \<and> (\<forall>j<i. \<not> P (xs ! j))"
proof (induction xs arbitrary: i)
  case Nil
  then show ?case by simp
next
  case (Cons x xs)
  show ?case
  proof (cases "P x")
    case True
    with Cons.prems show ?thesis by simp
  next
    case False
    with Cons.prems obtain i' where i': "first_index P xs = Some i'" "i = Suc i'"
      by auto
    from Cons.IH [OF i'(1)] False i'(2) show ?thesis
      by (auto simp: nth_Cons split: nat.splits)
  qed
qed

lemma first_index_None: "first_index P xs = None \<longleftrightarrow> (\<forall>x\<in>set xs. \<not> P x)"
  by (induction xs) auto

lemma coerce_string: "is_String_Knob k \<Longrightarrow> coerce_for_knob E k v = PStr (string_form E v)"
  by (cases v) (simp_all add: coerce_for_knob_def string_form_def)

lemma coerce_enum_exact:
  assumes "\<not> is_String_Knob k" "is_Enumeration_Knob k" "s \<in> set (k_values k)"
  shows "\<exists>i<length (k_values k). coerce_for_knob E k (PStr s) = PInt (int i)
           \<and> k_values k ! i = s \<and> (\<forall>j<i. k_values k ! j \<noteq> s)"
proof -
  from assms(3) obtain i where i: "first_index (\<lambda>opt. opt = s) (k_values k) = Some i"
    using first_index_None [of "\<lambda>opt. opt = s" "k_values k"]
    by (cases "first_index (\<lambda>opt. opt = s) (k_values k)") auto
  from first_index_Some [OF i] assms(1,2) i show ?thesis
    by (auto simp: coerce_for_knob_def)
qed

lemma coerce_enum_ci:
  assumes "\<not> is_String_Knob k" "is_Enumeration_Knob k" "s \<notin> set (k_values k)"
    "\<exists>opt\<in>set (k_values k). ieq opt s"
  shows "\<exists>i<length (k_values k). coerce_for_knob E k (PStr s) = PInt (int i)
           \<and> ieq (k_values k ! i) s \<and> (\<forall>j<i. \<not> ieq (k_values k ! j) s)"
proof -
  from assms(3) have n: "first_index (\<lambda>opt. opt = s) (k_values k) = None"
    by (auto simp: first_index_None)
  from assms(4) obtain i where i: "first_index (\<lambda>opt. lower opt = lower s) (k_values k) = Some i"
    using first_index_None [of "\<lambda>opt. lower opt = lower s" "k_values k"]
    by (cases "first_index (\<lambda>opt. lower opt = lower s) (k_values k)") (auto simp: ieq_def)
  from first_index_Some [OF i] assms(1,2) n i show ?thesis
    by (auto simp: coerce_for_knob_def ieq_def Let_def)
qed

lemma coerce_enum_none:
  assumes "\<not> is_String_Knob k" "is_Enumeration_Knob k" "\<forall>opt\<in>set (k_values k). \<not> ieq opt s"
  shows "coerce_for_knob E k (PStr s) = PStr s"
proof -
  from assms(3) have a: "first_index (\<lambda>opt. lower opt = lower s) (k_values k) = None"
    by (simp add: first_index_None ieq_def)
  from assms(3) have "\<forall>opt\<in>set (k_values k). opt \<noteq> s" by (auto simp: ieq_def)
  then have b: "first_index (\<lambda>opt. opt = s) (k_values k) = None"
    by (simp add: first_index_None)
  from a b assms(1,2) show ?thesis by (simp add: coerce_for_knob_def)
qed

lemma host_call_assign:
  "(case snd (host_call k calls (SetValue v None)) of
      Some e \<Rightarrow> (fst (host_call k calls (SetValue v None)), Inl e)
    | None \<Rightarrow> (fst (host_call k calls (SetValue v None)), Inr ''value'')) = assign_once k calls v"
  by (simp add: host_call_def assign_once_def split: option.splits)

lemma set_value_plain:
  assumes "strip raw \<noteq> []" "take 1 (strip raw) \<noteq> ''=''"
  shows "set_knob_value_or_expression E k (Some raw) calls =
     (let parsed = label_text E k (coerce_for_knob E k (literal_of (strip raw)))
      in case parsed of
           PList xs \<Rightarrow> (let r = set_value_loop k xs 0 xs calls
                        in case snd r of Some e \<Rightarrow> (fst r, Inl e) | None \<Rightarrow> (fst r, Inr ''value''))
         | _ \<Rightarrow> assign_once k calls parsed)"
proof -
  have p: "parse_value (Some (strip raw)) = Inr (literal_of (strip raw))"
    using assms(1) by (simp add: parse_value_literal strip_idem)
  show ?thesis
    using assms
    by (cases "label_text E k (coerce_for_knob E k (literal_of (strip raw)))")
       (simp_all add: set_knob_value_or_expression_def p Let_def host_call_def assign_once_def
          split: option.splits)
qed

lemma set_value_coerced:
  assumes "k_name k \<noteq> ''label''" "strip raw \<noteq> []" "take 1 (strip raw) \<noteq> ''=''"
  shows "set_knob_value_or_expression E k (Some raw) calls =
     (case coerce_for_knob E k (literal_of (strip raw)) of
        PList xs \<Rightarrow>
          (case snd (set_value_loop k xs 0 xs calls) of
             Some e \<Rightarrow> (fst (set_value_loop k xs 0 xs calls), Inl e)
           | None \<Rightarrow> (fst (set_value_loop k xs 0 xs calls), Inr ''value''))
      | v \<Rightarrow> assign_once k calls v)"
proof -
  from assms(1) have "label_text E k (coerce_for_knob E k (literal_of (strip raw)))
      = coerce_for_knob E k (literal_of (strip raw))"
    by (simp add: label_text_def)
  with assms(2,3) show ?thesis
    by (cases "coerce_for_knob E k (literal_of (strip raw))")
       (simp_all add: set_value_plain Let_def)
qed

lemma coerce_enum_not_list:
  "\<not> is_String_Knob k \<Longrightarrow> \<forall>xs. coerce_for_knob E k (PStr s) \<noteq> PList xs"
  by (simp add: coerce_for_knob_def Let_def split: option.splits)

lemma set_value_enum:
  assumes "\<not> is_String_Knob k" "k_name k \<noteq> ''label''" "strip raw \<noteq> []"
    "take 1 (strip raw) \<noteq> ''=''" "literal_of (strip raw) = PStr s"
  shows "set_knob_value_or_expression E k (Some raw) calls =
     assign_once k calls (coerce_for_knob E k (PStr s))"
  using coerce_enum_not_list [OF assms(1), of E s]
  by (cases "coerce_for_knob E k (PStr s)")
     (simp_all add: set_value_coerced [OF assms(2,3,4)] assms(5))


text \<open>
  Claim C7. Before the assignment the parsed value is coerced by the kind of the knob,
  and the coerced value is what is assigned (the knob named \<open>label\<close> has a rule of its
  own). For a string knob the value becomes its string form, a list joined with a comma
  and a space, and that string is assigned (input \<open>10\<close> is assigned as the string
  \<open>10\<close>). For an enumeration knob that is given a string: a string equal to one of the
  option labels becomes the index of the first such label; else a string equal to a label
  when case is ignored becomes the index of the first such label; else the string is left
  as it is; and the index, or the string left as it is, is what is assigned. For every
  knob, a coerced value that is no list is assigned once, and a list is assigned element
  by element.
\<close>

theorem coerce_by_kind:
  "(is_String_Knob k \<longrightarrow> coerce_for_knob E k v = PStr (string_form E v))
   \<and> (is_String_Knob k \<and> k_name k \<noteq> ''label'' \<and> strip raw \<noteq> [] \<and> take 1 (strip raw) \<noteq> ''=''
        \<longrightarrow> set_knob_value_or_expression E k (Some raw) calls =
              assign_once k calls (PStr (string_form E (literal_of (strip raw)))))
   \<and> (\<not> is_String_Knob k \<and> is_Enumeration_Knob k \<and> s \<in> set (k_values k)
        \<longrightarrow> (\<exists>i<length (k_values k). coerce_for_knob E k (PStr s) = PInt (int i)
               \<and> k_values k ! i = s \<and> (\<forall>j<i. k_values k ! j \<noteq> s)))
   \<and> (\<not> is_String_Knob k \<and> is_Enumeration_Knob k \<and> s \<notin> set (k_values k)
         \<and> (\<exists>opt\<in>set (k_values k). ieq opt s)
        \<longrightarrow> (\<exists>i<length (k_values k). coerce_for_knob E k (PStr s) = PInt (int i)
               \<and> ieq (k_values k ! i) s \<and> (\<forall>j<i. \<not> ieq (k_values k ! j) s)))
   \<and> (\<not> is_String_Knob k \<and> is_Enumeration_Knob k \<and> (\<forall>opt\<in>set (k_values k). \<not> ieq opt s)
        \<longrightarrow> coerce_for_knob E k (PStr s) = PStr s)
   \<and> (\<not> is_String_Knob k \<and> is_Enumeration_Knob k \<and> k_name k \<noteq> ''label''
         \<and> strip raw \<noteq> [] \<and> take 1 (strip raw) \<noteq> ''='' \<and> literal_of (strip raw) = PStr s
        \<longrightarrow> set_knob_value_or_expression E k (Some raw) calls =
              assign_once k calls (coerce_for_knob E k (PStr s)))
   \<and> (k_name k \<noteq> ''label'' \<and> strip raw \<noteq> [] \<and> take 1 (strip raw) \<noteq> ''=''
        \<longrightarrow> set_knob_value_or_expression E k (Some raw) calls =
              (case coerce_for_knob E k (literal_of (strip raw)) of
                 PList xs \<Rightarrow>
                   (case snd (set_value_loop k xs 0 xs calls) of
                      Some e \<Rightarrow> (fst (set_value_loop k xs 0 xs calls), Inl e)
                    | None \<Rightarrow> (fst (set_value_loop k xs 0 xs calls), Inr ''value''))
               | v \<Rightarrow> assign_once k calls v))"
proof (intro conjI impI)
  assume "is_String_Knob k"
  then show "coerce_for_knob E k v = PStr (string_form E v)" by (rule coerce_string)
next
  assume a: "is_String_Knob k \<and> k_name k \<noteq> ''label'' \<and> strip raw \<noteq> [] \<and> take 1 (strip raw) \<noteq> ''=''"
  then have "label_text E k (coerce_for_knob E k (literal_of (strip raw)))
      = PStr (string_form E (literal_of (strip raw)))"
    by (simp add: label_text_def coerce_string)
  with a show "set_knob_value_or_expression E k (Some raw) calls =
      assign_once k calls (PStr (string_form E (literal_of (strip raw))))"
    by (simp add: set_value_plain)
next
  assume "\<not> is_String_Knob k \<and> is_Enumeration_Knob k \<and> s \<in> set (k_values k)"
  then show "\<exists>i<length (k_values k). coerce_for_knob E k (PStr s) = PInt (int i)
      \<and> k_values k ! i = s \<and> (\<forall>j<i. k_values k ! j \<noteq> s)"
    using coerce_enum_exact by blast
next
  assume "\<not> is_String_Knob k \<and> is_Enumeration_Knob k \<and> s \<notin> set (k_values k)
      \<and> (\<exists>opt\<in>set (k_values k). ieq opt s)"
  then show "\<exists>i<length (k_values k). coerce_for_knob E k (PStr s) = PInt (int i)
      \<and> ieq (k_values k ! i) s \<and> (\<forall>j<i. \<not> ieq (k_values k ! j) s)"
    using coerce_enum_ci by blast
next
  assume "\<not> is_String_Knob k \<and> is_Enumeration_Knob k \<and> (\<forall>opt\<in>set (k_values k). \<not> ieq opt s)"
  then show "coerce_for_knob E k (PStr s) = PStr s"
    using coerce_enum_none by blast
next
  assume "\<not> is_String_Knob k \<and> is_Enumeration_Knob k \<and> k_name k \<noteq> ''label''
      \<and> strip raw \<noteq> [] \<and> take 1 (strip raw) \<noteq> ''='' \<and> literal_of (strip raw) = PStr s"
  then show "set_knob_value_or_expression E k (Some raw) calls =
      assign_once k calls (coerce_for_knob E k (PStr s))"
    by (simp add: set_value_enum)
next
  assume "k_name k \<noteq> ''label'' \<and> strip raw \<noteq> [] \<and> take 1 (strip raw) \<noteq> ''=''"
  then show "set_knob_value_or_expression E k (Some raw) calls =
      (case coerce_for_knob E k (literal_of (strip raw)) of
         PList xs \<Rightarrow>
           (case snd (set_value_loop k xs 0 xs calls) of
              Some e \<Rightarrow> (fst (set_value_loop k xs 0 xs calls), Inl e)
            | None \<Rightarrow> (fst (set_value_loop k xs 0 xs calls), Inr ''value''))
       | v \<Rightarrow> assign_once k calls v)"
    by (simp add: set_value_coerced)
qed

theorem coerce_by_kind_witness:
  "set_knob_value_or_expression ex_builtins ex_frame (Some ''10'') [] =
     ([SetValue (PStr ''10'') None], Inr ''value'')
   \<and> coerce_for_knob ex_builtins ex_frame (PList [PInt 1, PInt 2]) = PStr ''1, 2''
   \<and> coerce_for_knob ex_builtins ex_filter (PStr ''cubic'') = PInt 2
   \<and> coerce_for_knob ex_builtins ex_filter (PStr ''Bilinear'') = PInt 1
   \<and> coerce_for_knob ex_builtins ex_filter (PStr ''box'') = PStr ''box''
   \<and> set_knob_value_or_expression ex_builtins ex_filter (Some ''Bilinear'') [] =
       ([SetValue (PInt 1) None], Inr ''value'')
   \<and> set_knob_value_or_expression ex_builtins ex_filter (Some ''box'') [] =
       ([SetValue (PStr ''box'') None], Inr ''value'')
   \<and> set_knob_value_or_expression ex_builtins ex_knob (Some ''2.5'') [] =
       ([SetValue (PFloat (Finite (5 / 2))) None], Inr ''value'')"
proof -
  have str: "is_String_Knob ex_frame \<and> k_name ex_frame \<noteq> ''label'' \<and> strip ''10'' \<noteq> []
      \<and> take 1 (strip ''10'') \<noteq> ''=''"
    by (simp add: eval_knob eval_text)
  have lit: "string_form ex_builtins (literal_of (strip ''10'')) = ''10''"
    by (simp add: string_form_def literal_of_def ieq_def numeric_def py_str_def str_of_int_def eval_text)
  have l2: "string_form ex_builtins (PList [PInt 1, PInt 2]) = ''1, 2''"
    by (simp add: string_form_def py_str_def str_of_int_def eval_text)
  have en: "\<not> is_String_Knob ex_filter \<and> is_Enumeration_Knob ex_filter"
    "k_values ex_filter = [''nearest'', ''bilinear'', ''cubic'']"
    by (simp_all add: eval_knob)
  have ci: "ieq ''bilinear'' ''Bilinear''" "\<not> ieq ''nearest'' ''Bilinear''"
    "\<not> ieq ''nearest'' ''box''" "\<not> ieq ''bilinear'' ''box''" "\<not> ieq ''cubic'' ''box''"
    by (simp_all add: ieq_def eval_text)
  note t1 = coerce_by_kind [of ex_frame ex_builtins "PList [PInt 1, PInt 2]" "''10''" "[]" "''cubic''"]
  note t2 = coerce_by_kind [of ex_filter ex_builtins "PInt 0" "''10''" "[]" "''cubic''"]
  note t3 = coerce_by_kind [of ex_filter ex_builtins "PInt 0" "''Bilinear''" "[]" "''Bilinear''"]
  note t4 = coerce_by_kind [of ex_filter ex_builtins "PInt 0" "''box''" "[]" "''box''"]
  note t5 = coerce_by_kind [of ex_knob ex_builtins "PInt 0" "''2.5''" "[]" "''box''"]
  have a: "set_knob_value_or_expression ex_builtins ex_frame (Some ''10'') [] =
     ([SetValue (PStr ''10'') None], Inr ''value'')"
    using t1 [THEN conjunct2, THEN conjunct1] str lit by (simp add: assign_once_def eval_knob)
  have b: "coerce_for_knob ex_builtins ex_frame (PList [PInt 1, PInt 2]) = PStr ''1, 2''"
    using t1 [THEN conjunct1] str l2 by simp
  have c: "coerce_for_knob ex_builtins ex_filter (PStr ''cubic'') = PInt 2"
    using t2 [THEN conjunct2, THEN conjunct2, THEN conjunct1] en
    by (auto simp: less_Suc_eq numeral_3_eq_3)
  have d: "coerce_for_knob ex_builtins ex_filter (PStr ''Bilinear'') = PInt 1"
    using t3 [THEN conjunct2, THEN conjunct2, THEN conjunct2, THEN conjunct1] en ci
    by (auto simp: less_Suc_eq numeral_3_eq_3)
  have e: "coerce_for_knob ex_builtins ex_filter (PStr ''box'') = PStr ''box''"
    using t4 [THEN conjunct2, THEN conjunct2, THEN conjunct2, THEN conjunct2, THEN conjunct1] en ci
    by simp
  have hf: "\<not> is_String_Knob ex_filter \<and> is_Enumeration_Knob ex_filter
      \<and> k_name ex_filter \<noteq> ''label'' \<and> strip ''Bilinear'' \<noteq> []
      \<and> take 1 (strip ''Bilinear'') \<noteq> ''='' \<and> literal_of (strip ''Bilinear'') = PStr ''Bilinear''"
    "\<not> is_String_Knob ex_filter \<and> is_Enumeration_Knob ex_filter
      \<and> k_name ex_filter \<noteq> ''label'' \<and> strip ''box'' \<noteq> []
      \<and> take 1 (strip ''box'') \<noteq> ''='' \<and> literal_of (strip ''box'') = PStr ''box''"
    by (simp_all add: literal_of_def ieq_def numeric_def eval_knob eval_text)
  have acc: "\<And>v. assign_once ex_filter [] v = ([SetValue v None], Inr ''value'')"
    "\<And>v. assign_once ex_knob [] v = ([SetValue v None], Inr ''value'')"
    by (simp_all add: assign_once_def eval_knob)
  note s3 = t3 [THEN conjunct2, THEN conjunct2, THEN conjunct2, THEN conjunct2, THEN conjunct2,
      THEN conjunct1, THEN mp, OF hf(1), unfolded d acc]
  note s4 = t4 [THEN conjunct2, THEN conjunct2, THEN conjunct2, THEN conjunct2, THEN conjunct2,
      THEN conjunct1, THEN mp, OF hf(2), unfolded e acc]
  have hk: "k_name ex_knob \<noteq> ''label'' \<and> strip ''2.5'' \<noteq> [] \<and> take 1 (strip ''2.5'') \<noteq> ''=''"
    by (simp add: eval_knob eval_text)
  have ck: "coerce_for_knob ex_builtins ex_knob (literal_of (strip ''2.5''))
      = PFloat (Finite (5 / 2))"
    by (simp add: coerce_for_knob_def literal_of_def ieq_def numeric_def eval_knob eval_text)
  note s5 = t5 [THEN conjunct2, THEN conjunct2, THEN conjunct2, THEN conjunct2, THEN conjunct2,
      THEN conjunct2, THEN mp, OF hk, unfolded ck pyval.case acc]
  from a b c d e s3 s4 s5 show ?thesis by (intro conjI)
qed

section \<open>Properties of the label knob\<close>

lemma set_value_plain_v1:
  assumes "strip raw \<noteq> []" "take 1 (strip raw) \<noteq> ''=''"
  shows "set_knob_value_or_expression_v1 k (Some raw) calls =
     (case literal_of (strip raw) of
        PList xs \<Rightarrow> (let r = set_value_loop_v1 k xs 0 xs calls
                     in case snd r of Some e \<Rightarrow> (fst r, Inl e) | None \<Rightarrow> (fst r, Inr ''value''))
      | v \<Rightarrow> assign_once k calls v)"
proof -
  have p: "parse_value_v1 (Some (strip raw)) = Inr (literal_of (strip raw))"
    using assms(1) by (simp add: parse_value_v1_eq parse_value_literal strip_idem)
  show ?thesis
    using assms
    by (cases "literal_of (strip raw)")
       (simp_all add: set_knob_value_or_expression_v1_def p Let_def host_call_def assign_once_def
          split: option.splits)
qed

text \<open>
  Claim C8, as amended. In \<open>MassKnobModifier/MassKnobModifier.py\<close>, for every input that is
  no expression, applied to a knob named \<open>label\<close>: when the knob holds text that is not
  blank, what is assigned is that text, stripped on the right, a newline, and the new text
  (the string form of the parsed and coerced value); when the knob holds no text (a
  false value, or a blank string), the new text alone is assigned. The older
  \<open>MassKnobModifier.py\<close> has no such case: there the parsed value is assigned as it is,
  whatever the knob holds.
\<close>

theorem label_appends:
  "k_name k = ''label'' \<and> strip raw \<noteq> [] \<and> take 1 (strip raw) \<noteq> ''=''
   \<longrightarrow> (\<forall>ex. k_value k = PStr ex \<and> strip ex \<noteq> []
          \<longrightarrow> set_knob_value_or_expression E k (Some raw) calls =
                assign_once k calls
                  (PStr (rstrip ex @ [CHR 0x0A]
                         @ py_str E (coerce_for_knob E k (literal_of (strip raw))))))
     \<and> (\<not> truthy (k_value k) \<or> (\<exists>ex. k_value k = PStr ex \<and> strip ex = [])
          \<longrightarrow> set_knob_value_or_expression E k (Some raw) calls =
                assign_once k calls
                  (PStr (py_str E (coerce_for_knob E k (literal_of (strip raw))))))
     \<and> ((\<forall>xs. literal_of (strip raw) \<noteq> PList xs)
          \<longrightarrow> set_knob_value_or_expression_v1 k (Some raw) calls =
                assign_once k calls (literal_of (strip raw)))"
proof (intro impI conjI allI)
  fix ex
  assume a: "k_name k = ''label'' \<and> strip raw \<noteq> [] \<and> take 1 (strip raw) \<noteq> ''=''"
    and b: "k_value k = PStr ex \<and> strip ex \<noteq> []"
  from b have "ex \<noteq> []" by (auto simp: strip_def lstrip_def rstrip_def)
  with a b have "label_text E k (coerce_for_knob E k (literal_of (strip raw))) =
      PStr (rstrip ex @ [CHR 0x0A] @ py_str E (coerce_for_knob E k (literal_of (strip raw))))"
    by (simp add: label_text_def Let_def)
  with a show "set_knob_value_or_expression E k (Some raw) calls =
      assign_once k calls
        (PStr (rstrip ex @ [CHR 0x0A] @ py_str E (coerce_for_knob E k (literal_of (strip raw)))))"
    by (simp add: set_value_plain)
next
  assume a: "k_name k = ''label'' \<and> strip raw \<noteq> [] \<and> take 1 (strip raw) \<noteq> ''=''"
    and b: "\<not> truthy (k_value k) \<or> (\<exists>ex. k_value k = PStr ex \<and> strip ex = [])"
  from a b have "label_text E k (coerce_for_knob E k (literal_of (strip raw))) =
      PStr (py_str E (coerce_for_knob E k (literal_of (strip raw))))"
    by (auto simp: label_text_def Let_def)
  with a show "set_knob_value_or_expression E k (Some raw) calls =
      assign_once k calls (PStr (py_str E (coerce_for_knob E k (literal_of (strip raw)))))"
    by (simp add: set_value_plain)
next
  assume a: "k_name k = ''label'' \<and> strip raw \<noteq> [] \<and> take 1 (strip raw) \<noteq> ''=''"
    and b: "\<forall>xs. literal_of (strip raw) \<noteq> PList xs"
  from a b show "set_knob_value_or_expression_v1 k (Some raw) calls =
      assign_once k calls (literal_of (strip raw))"
    by (cases "literal_of (strip raw)") (simp_all add: set_value_plain_v1)
qed

theorem label_appends_witness:
  "set_knob_value_or_expression ex_builtins ex_label (Some ''Pass2'') [] =
     ([SetValue (PStr (''Pass1'' @ [CHR 0x0A] @ ''Pass2'')) None], Inr ''value'')
   \<and> set_knob_value_or_expression ex_builtins (ex_label\<lparr>k_value := PStr '' ''\<rparr>) (Some ''Pass2'') [] =
     ([SetValue (PStr ''Pass2'') None], Inr ''value'')"
proof -
  have h: "k_name ex_label = ''label'' \<and> strip ''Pass2'' \<noteq> [] \<and> take 1 (strip ''Pass2'') \<noteq> ''=''"
    "k_name (ex_label\<lparr>k_value := PStr '' ''\<rparr>) = ''label''"
    by (simp_all add: eval_knob eval_text)
  have v: "k_value ex_label = PStr ''Pass1'' \<and> strip ''Pass1'' \<noteq> []" "rstrip ''Pass1'' = ''Pass1''"
    "k_value (ex_label\<lparr>k_value := PStr '' ''\<rparr>) = PStr '' '' \<and> strip '' '' = []"
    by (simp_all add: eval_knob eval_text)
  have n: "py_str ex_builtins (coerce_for_knob ex_builtins ex_label (literal_of (strip ''Pass2''))) = ''Pass2''"
    "py_str ex_builtins (coerce_for_knob ex_builtins (ex_label\<lparr>k_value := PStr '' ''\<rparr>) (literal_of (strip ''Pass2''))) = ''Pass2''"
    by (simp_all add: coerce_for_knob_def literal_of_def ieq_def numeric_def py_str_def eval_knob eval_text)
  have a: "set_knob_value_or_expression ex_builtins ex_label (Some ''Pass2'') [] =
     ([SetValue (PStr (''Pass1'' @ [CHR 0x0A] @ ''Pass2'')) None], Inr ''value'')"
    using label_appends [of ex_label "''Pass2''" ex_builtins "[]"] h v n
    by (simp add: assign_once_def eval_knob)
  have b: "set_knob_value_or_expression ex_builtins (ex_label\<lparr>k_value := PStr '' ''\<rparr>) (Some ''Pass2'') [] =
     ([SetValue (PStr ''Pass2'') None], Inr ''value'')"
    using label_appends [of "ex_label\<lparr>k_value := PStr '' ''\<rparr>" "''Pass2''" ex_builtins "[]"] h v n
    by (simp add: assign_once_def eval_knob)
  from a b show ?thesis by simp
qed

text \<open>
  The claim as it was stated fails on the older copy: a \<open>label\<close> knob that holds
  \<open>Pass1\<close> is assigned \<open>Pass2\<close> alone.
\<close>

theorem label_overwritten_in_older_copy:
  "k_name ex_label = ''label'' \<and> k_value ex_label = PStr ''Pass1''
   \<and> set_knob_value_or_expression_v1 ex_label (Some ''Pass2'') [] =
       ([SetValue (PStr ''Pass2'') None], Inr ''value'')"
  by (simp add: set_knob_value_or_expression_v1_def parse_value_v1_eq parse_value_literal
      literal_of_def ieq_def numeric_def host_call_def eval_knob eval_text)

section \<open>Properties of the expression mode\<close>

lemma expr_binds_step: "m < n \<Longrightarrow> expr_binds expr m n = SetExpression expr (Some m) # expr_binds expr (Suc m) n"
  by (simp add: expr_binds_def upt_conv_Cons)

lemma expr_binds_empty [simp]: "expr_binds expr m m = []"
  by (simp add: expr_binds_def)

lemma set_expression_loop_v1_eq:
  "set_expression_loop_v1 k expr is calls = set_expression_loop k expr is calls"
  by (induction "is" arbitrary: calls) (auto simp: host_call_def split: option.splits)

lemma set_expression_mode:
  assumes "take 1 (strip raw) = ''=''" "strip (drop 1 (strip raw)) \<noteq> []"
  shows "set_knob_value_or_expression E k (Some raw) calls =
     bind_result (if arity k > 1
                  then set_expression_loop k (strip (drop 1 (strip raw))) [0..<nat (arity k)] calls
                  else host_call k calls (SetExpression (strip (drop 1 (strip raw))) None))"
proof -
  from assms(1) have "strip raw \<noteq> []" by auto
  with assms show ?thesis
    by (simp add: set_knob_value_or_expression_def Let_def bind_result_def arity_def
        cong: option.case_cong)
qed

lemma set_expression_mode_v1:
  assumes "take 1 (strip raw) = ''=''" "strip (drop 1 (strip raw)) \<noteq> []"
  shows "set_knob_value_or_expression_v1 k (Some raw) calls =
     set_knob_value_or_expression E k (Some raw) calls"
proof -
  from assms(1) have "strip raw \<noteq> []" by auto
  with assms show ?thesis
    by (simp add: set_knob_value_or_expression_def set_knob_value_or_expression_v1_def Let_def
        set_expression_loop_v1_eq cong: option.case_cong)
qed

lemma loop_only_binds:
  "\<exists>new. fst (set_expression_loop k expr is calls) = calls @ new
         \<and> (\<forall>c\<in>set new. \<exists>i. c = SetExpression expr i)"
proof (induction "is" arbitrary: calls)
  case Nil
  then show ?case by simp
next
  case (Cons i "is")
  show ?case
  proof (cases "k_host k calls (SetExpression expr (Some i))")
    case None
    from Cons.IH [of "calls @ [SetExpression expr (Some i)]"]
    obtain new where "fst (set_expression_loop k expr is (calls @ [SetExpression expr (Some i)]))
        = (calls @ [SetExpression expr (Some i)]) @ new" "\<forall>c\<in>set new. \<exists>i. c = SetExpression expr i"
      by blast
    with None show ?thesis
      by (intro exI [of _ "SetExpression expr (Some i) # new"]) (simp add: host_call_def)
  next
    case (Some e)
    then show ?thesis
      by (cases "k_host k calls (SetExpression expr None)") (auto simp: host_call_def)
  qed
qed

lemma loop_all_accepted:
  assumes "\<forall>i. m \<le> i \<and> i < n \<longrightarrow> k_host k (calls @ expr_binds expr m i) (SetExpression expr (Some i)) = None"
  shows "set_expression_loop k expr [m..<n] calls = (calls @ expr_binds expr m n, None)"
  using assms
proof (induction "n - m" arbitrary: m calls)
  case 0
  then show ?case by (simp add: expr_binds_def)
next
  case (Suc d)
  then have mn: "m < n" by simp
  from Suc.prems mn have acc: "k_host k calls (SetExpression expr (Some m)) = None"
    by (metis append_Nil2 expr_binds_empty le_refl)
  have "\<forall>i. Suc m \<le> i \<and> i < n \<longrightarrow>
      k_host k ((calls @ [SetExpression expr (Some m)]) @ expr_binds expr (Suc m) i)
        (SetExpression expr (Some i)) = None"
  proof (intro allI impI)
    fix i assume i: "Suc m \<le> i \<and> i < n"
    then have "expr_binds expr m i = SetExpression expr (Some m) # expr_binds expr (Suc m) i"
      by (simp add: expr_binds_step)
    with Suc.prems i show "k_host k ((calls @ [SetExpression expr (Some m)]) @ expr_binds expr (Suc m) i)
        (SetExpression expr (Some i)) = None"
      by (metis Suc_leD append.assoc append_Cons append_Nil)
  qed
  moreover from Suc.hyps(2) have "d = n - Suc m" by simp
  ultimately have "set_expression_loop k expr [Suc m..<n] (calls @ [SetExpression expr (Some m)])
      = ((calls @ [SetExpression expr (Some m)]) @ expr_binds expr (Suc m) n, None)"
    using Suc.hyps(1) by blast
  with mn acc show ?case
    by (simp add: upt_conv_Cons host_call_def expr_binds_step)
qed

lemma loop_first_refusal:
  assumes "m \<le> j" "j < n"
    "\<forall>i. m \<le> i \<and> i < j \<longrightarrow> k_host k (calls @ expr_binds expr m i) (SetExpression expr (Some i)) = None"
    "k_host k (calls @ expr_binds expr m j) (SetExpression expr (Some j)) = Some e"
  shows "set_expression_loop k expr [m..<n] calls =
     (if is_TypeError e then host_call k (calls @ expr_binds expr m j) (SetExpression expr None)
      else (calls @ expr_binds expr m j, Some e))"
  using assms
proof (induction "j - m" arbitrary: m calls)
  case 0
  then have "j = m" by simp
  with 0 show ?case by (simp add: upt_conv_Cons host_call_def)
next
  case (Suc d)
  then have mj: "m < j" by simp
  with Suc.prems have mn: "m < n" by simp
  from Suc.prems mj have acc: "k_host k calls (SetExpression expr (Some m)) = None"
    by (metis append_Nil2 expr_binds_empty le_refl)
  have step: "\<And>i. Suc m \<le> i \<Longrightarrow> calls @ expr_binds expr m i
      = (calls @ [SetExpression expr (Some m)]) @ expr_binds expr (Suc m) i"
    by (simp add: expr_binds_step)
  have a: "\<forall>i. Suc m \<le> i \<and> i < j \<longrightarrow>
      k_host k ((calls @ [SetExpression expr (Some m)]) @ expr_binds expr (Suc m) i)
        (SetExpression expr (Some i)) = None"
    using Suc.prems(3) step by (metis Suc_leD)
  have b: "k_host k ((calls @ [SetExpression expr (Some m)]) @ expr_binds expr (Suc m) j)
        (SetExpression expr (Some j)) = Some e"
    using Suc.prems(4) step [of j] mj by simp
  from Suc.hyps(2) have d: "d = j - Suc m" by simp
  from mj have c: "Suc m \<le> j" by simp
  note ih = Suc.hyps(1) [OF d c Suc.prems(2) a b]
  with mn acc show ?case
    using step [of j] c by (simp add: upt_conv_Cons host_call_def)
qed


text \<open>
  Claim C3. An input whose trimmed form starts with \<open>=\<close> and goes on with something
  that is not blank is bound as an expression, whatever follows the \<open>=\<close>: every call the
  knob receives is a \<open>setExpression\<close> of the trimmed remainder, never a \<open>setValue\<close>, and the
  mode reported is \<open>expression\<close>. The arity is asked of the knob, 1 when the query raises.
  With an arity of at most 1 the expression is bound once, on the whole knob. With an
  arity above 1 it is bound at each index from 0 in turn: when the host accepts them all,
  these are the calls made; at the first index the host refuses, a \<open>TypeError\<close> leads to
  one binding on the whole knob and the loop stops, and any other exception leaves the
  function. The older copy of the function does the same.
\<close>

theorem expression_bind:
  "take 1 (strip raw) = ''='' \<and> strip (drop 1 (strip raw)) \<noteq> [] \<longrightarrow>
     (let expr = strip (drop 1 (strip raw));
          n = nat (arity k);
          r = set_knob_value_or_expression E k (Some raw) calls
      in (\<exists>new. fst r = calls @ new \<and> (\<forall>c\<in>set new. \<exists>i. c = SetExpression expr i))
         \<and> (\<forall>m. snd r = Inr m \<longrightarrow> m = ''expression'')
         \<and> (k_arraySize k = None \<or> arity k \<le> 1
              \<longrightarrow> r = bind_result (host_call k calls (SetExpression expr None)))
         \<and> (arity k > 1
              \<and> (\<forall>i<n. k_host k (calls @ expr_binds expr 0 i) (SetExpression expr (Some i)) = None)
              \<longrightarrow> r = (calls @ expr_binds expr 0 n, Inr ''expression''))
         \<and> (\<forall>j e. arity k > 1 \<and> j < n
                \<and> (\<forall>i<j. k_host k (calls @ expr_binds expr 0 i) (SetExpression expr (Some i)) = None)
                \<and> k_host k (calls @ expr_binds expr 0 j) (SetExpression expr (Some j)) = Some e
              \<longrightarrow> r = (if is_TypeError e
                       then bind_result (host_call k (calls @ expr_binds expr 0 j)
                                           (SetExpression expr None))
                       else (calls @ expr_binds expr 0 j, Inl e)))
         \<and> set_knob_value_or_expression_v1 k (Some raw) calls = r)"
proof (intro impI)
  assume a: "take 1 (strip raw) = ''='' \<and> strip (drop 1 (strip raw)) \<noteq> []"
  define expr where "expr = strip (drop 1 (strip raw))"
  define n where "n = nat (arity k)"
  define r where "r = set_knob_value_or_expression E k (Some raw) calls"
  have r: "r = bind_result (if arity k > 1 then set_expression_loop k expr [0..<n] calls
                            else host_call k calls (SetExpression expr None))"
    using a by (simp add: r_def expr_def n_def set_expression_mode)
  have p1: "\<exists>new. fst r = calls @ new \<and> (\<forall>c\<in>set new. \<exists>i. c = SetExpression expr i)"
  proof (cases "arity k > 1")
    case True
    with r have "fst r = fst (set_expression_loop k expr [0..<n] calls)"
      by (simp add: bind_result_def split: option.splits)
    with loop_only_binds [of k expr "[0..<n]" calls] show ?thesis by simp
  next
    case False
    with r show ?thesis
      by (cases "k_host k calls (SetExpression expr None)")
         (simp_all add: bind_result_def host_call_def)
  qed
  have p2: "\<forall>m. snd r = Inr m \<longrightarrow> m = ''expression''"
    unfolding r by (auto simp: bind_result_def split: option.splits)
  have p3: "k_arraySize k = None \<or> arity k \<le> 1
      \<longrightarrow> r = bind_result (host_call k calls (SetExpression expr None))"
    unfolding r by (auto simp: arity_def)
  have p4: "arity k > 1
      \<and> (\<forall>i<n. k_host k (calls @ expr_binds expr 0 i) (SetExpression expr (Some i)) = None)
      \<longrightarrow> r = (calls @ expr_binds expr 0 n, Inr ''expression'')"
  proof (intro impI)
    assume h: "arity k > 1
      \<and> (\<forall>i<n. k_host k (calls @ expr_binds expr 0 i) (SetExpression expr (Some i)) = None)"
    then have "set_expression_loop k expr [0..<n] calls = (calls @ expr_binds expr 0 n, None)"
      by (intro loop_all_accepted) simp
    with h show "r = (calls @ expr_binds expr 0 n, Inr ''expression'')"
      unfolding r by (simp add: bind_result_def)
  qed
  have p5: "\<forall>j e. arity k > 1 \<and> j < n
        \<and> (\<forall>i<j. k_host k (calls @ expr_binds expr 0 i) (SetExpression expr (Some i)) = None)
        \<and> k_host k (calls @ expr_binds expr 0 j) (SetExpression expr (Some j)) = Some e
      \<longrightarrow> r = (if is_TypeError e
               then bind_result (host_call k (calls @ expr_binds expr 0 j) (SetExpression expr None))
               else (calls @ expr_binds expr 0 j, Inl e))"
  proof (intro allI impI)
    fix j e
    assume h: "arity k > 1 \<and> j < n
        \<and> (\<forall>i<j. k_host k (calls @ expr_binds expr 0 i) (SetExpression expr (Some i)) = None)
        \<and> k_host k (calls @ expr_binds expr 0 j) (SetExpression expr (Some j)) = Some e"
    then have "set_expression_loop k expr [0..<n] calls =
       (if is_TypeError e then host_call k (calls @ expr_binds expr 0 j) (SetExpression expr None)
        else (calls @ expr_binds expr 0 j, Some e))"
      by (intro loop_first_refusal) simp_all
    with h show "r = (if is_TypeError e
               then bind_result (host_call k (calls @ expr_binds expr 0 j) (SetExpression expr None))
               else (calls @ expr_binds expr 0 j, Inl e))"
      unfolding r by (simp add: bind_result_def)
  qed
  have p6: "set_knob_value_or_expression_v1 k (Some raw) calls = r"
    using a by (simp add: r_def set_expression_mode_v1)
  from p1 p2 p3 p4 p5 p6 show "let expr = strip (drop 1 (strip raw));
          n = nat (arity k);
          r = set_knob_value_or_expression E k (Some raw) calls
      in (\<exists>new. fst r = calls @ new \<and> (\<forall>c\<in>set new. \<exists>i. c = SetExpression expr i))
         \<and> (\<forall>m. snd r = Inr m \<longrightarrow> m = ''expression'')
         \<and> (k_arraySize k = None \<or> arity k \<le> 1
              \<longrightarrow> r = bind_result (host_call k calls (SetExpression expr None)))
         \<and> (arity k > 1
              \<and> (\<forall>i<n. k_host k (calls @ expr_binds expr 0 i) (SetExpression expr (Some i)) = None)
              \<longrightarrow> r = (calls @ expr_binds expr 0 n, Inr ''expression''))
         \<and> (\<forall>j e. arity k > 1 \<and> j < n
                \<and> (\<forall>i<j. k_host k (calls @ expr_binds expr 0 i) (SetExpression expr (Some i)) = None)
                \<and> k_host k (calls @ expr_binds expr 0 j) (SetExpression expr (Some j)) = Some e
              \<longrightarrow> r = (if is_TypeError e
                       then bind_result (host_call k (calls @ expr_binds expr 0 j)
                                           (SetExpression expr None))
                       else (calls @ expr_binds expr 0 j, Inl e)))
         \<and> set_knob_value_or_expression_v1 k (Some raw) calls = r"
    unfolding Let_def expr_def [symmetric] n_def [symmetric] r_def [symmetric] by blast
qed


theorem expression_bind_witness:
  "set_knob_value_or_expression ex_builtins ex_array (Some '' =x+1'') [] =
     ([SetExpression ''x+1'' (Some 0), SetExpression ''x+1'' (Some 1),
       SetExpression ''x+1'' (Some 2)], Inr ''expression'')
   \<and> set_knob_value_or_expression ex_builtins ex_knob (Some ''=123'') [] =
     ([SetExpression ''123'' None], Inr ''expression'')
   \<and> set_knob_value_or_expression ex_builtins ex_no_index (Some ''= frame'') [] =
     ([SetExpression ''frame'' None], Inr ''expression'')"
proof -
  have e: "strip (drop 1 (strip '' =x+1'')) = ''x+1''" "strip (drop 1 (strip ''=123'')) = ''123''"
    "strip (drop 1 (strip ''= frame'')) = ''frame''"
    by (simp_all add: eval_text)
  have h: "take 1 (strip '' =x+1'') = ''='' \<and> ''x+1'' \<noteq> []"
    "take 1 (strip ''=123'') = ''='' \<and> ''123'' \<noteq> []"
    "take 1 (strip ''= frame'') = ''='' \<and> ''frame'' \<noteq> []"
    by (simp_all add: eval_text)
  have ar: "arity ex_array = 3" "arity ex_knob = 1" "arity ex_no_index = 2"
    by (simp_all add: arity_def eval_knob)
  have host: "\<And>calls c. k_host ex_array calls c = None"
    "\<And>calls c. k_host ex_knob calls c = None"
    "\<And>calls x. k_host ex_no_index calls (SetExpression x None) = None"
    "\<And>calls x i. k_host ex_no_index calls (SetExpression x (Some i))
       = Some (TypeError ''takes one argument'')"
    by (simp_all add: eval_knob)
  have binds: "\<And>x. expr_binds x 0 0 = []"
    "\<And>x. expr_binds x 0 3 = [SetExpression x (Some 0), SetExpression x (Some 1),
       SetExpression x (Some 2)]"
    by (simp_all add: expr_binds_def numeral_3_eq_3)
  note ta = expression_bind [of "'' =x+1''" ex_array ex_builtins "[]", unfolded Let_def e ar,
      THEN mp, OF h(1)]
  note tb = expression_bind [of "''=123''" ex_knob ex_builtins "[]", unfolded Let_def e ar,
      THEN mp, OF h(2)]
  note tc = expression_bind [of "''= frame''" ex_no_index ex_builtins "[]", unfolded Let_def e ar,
      THEN mp, OF h(3)]
  have "(1::int) < 3 \<and> (\<forall>i<nat 3. k_host ex_array ([] @ expr_binds ''x+1'' 0 i)
      (SetExpression ''x+1'' (Some i)) = None)"
    by (simp add: host)
  from ta [THEN conjunct2, THEN conjunct2, THEN conjunct2, THEN conjunct1, THEN mp, OF this]
  have a: "set_knob_value_or_expression ex_builtins ex_array (Some '' =x+1'') [] =
     ([SetExpression ''x+1'' (Some 0), SetExpression ''x+1'' (Some 1),
       SetExpression ''x+1'' (Some 2)], Inr ''expression'')"
    by (simp add: binds)
  have "k_arraySize ex_knob = None \<or> (1::int) \<le> 1" by simp
  from tb [THEN conjunct2, THEN conjunct2, THEN conjunct1, THEN mp, OF this]
  have b: "set_knob_value_or_expression ex_builtins ex_knob (Some ''=123'') [] =
     ([SetExpression ''123'' None], Inr ''expression'')"
    by (simp add: host bind_result_def host_call_def)
  have "(1::int) < 2 \<and> 0 < nat 2
      \<and> (\<forall>i<0. k_host ex_no_index ([] @ expr_binds ''frame'' 0 i)
            (SetExpression ''frame'' (Some i)) = None)
      \<and> k_host ex_no_index ([] @ expr_binds ''frame'' 0 0) (SetExpression ''frame'' (Some 0))
          = Some (TypeError ''takes one argument'')"
    by (simp add: host)
  from tc [THEN conjunct2, THEN conjunct2, THEN conjunct2, THEN conjunct2, THEN conjunct1,
      THEN spec, THEN spec, THEN mp, OF this]
  have c: "set_knob_value_or_expression ex_builtins ex_no_index (Some ''= frame'') [] =
     ([SetExpression ''frame'' None], Inr ''expression'')"
    by (simp add: host binds bind_result_def host_call_def)
  from a b c show ?thesis by simp
qed

section \<open>Properties of the class lookup\<close>

lemma nodes_by_class_eq:
  "nodes_by_class all_nodes (Some c) =
     (if strip c = [] then []
      else if (\<exists>n\<in>set all_nodes. n_Class n = strip c)
      then filter (\<lambda>n. n_Class n = strip c) all_nodes
      else filter (\<lambda>n. ieq (n_Class n) (strip c)) all_nodes)"
  by (auto simp: nodes_by_class_def Let_def filter_empty_conv ieq_def)

text \<open>
  Claim C6. \<open>_nodes_by_class\<close> returns no node when the class name is blank once trimmed
  (or is \<open>None\<close>). Otherwise it returns the nodes whose class is exactly the trimmed
  name, case counting; and only when no node has that class, the nodes whose class is the
  trimmed name when case is ignored.
\<close>

theorem nodes_by_class_match:
  "nodes_by_class all_nodes None = []
   \<and> nodes_by_class all_nodes (Some c) =
     (if strip c = [] then []
      else if (\<exists>n\<in>set all_nodes. n_Class n = strip c)
      then filter (\<lambda>n. n_Class n = strip c) all_nodes
      else filter (\<lambda>n. ieq (n_Class n) (strip c)) all_nodes)"
  by (simp add: nodes_by_class_eq) (simp add: nodes_by_class_def)

lemma ex_classes:
  "n_Class ex_blur1 = ''Blur''" "n_Class ex_blur2 = ''Blur''" "n_Class ex_grade = ''Grade''"
  by (simp_all add: ex_blur1_def ex_blur2_def ex_grade_def)

theorem nodes_by_class_match_witness:
  "nodes_by_class [ex_blur1, ex_grade, ex_blur2] (Some '' Blur '') = [ex_blur1, ex_blur2]
   \<and> nodes_by_class [ex_blur1, ex_grade, ex_blur2] (Some ''GRADE'') = [ex_grade]
   \<and> nodes_by_class [ex_blur1, ex_grade, ex_blur2] (Some ''Merge2'') = []
   \<and> nodes_by_class [ex_blur1, ex_grade, ex_blur2] (Some ''  '') = []"
proof -
  have s: "strip '' Blur '' = ''Blur''" "strip ''GRADE'' = ''GRADE''" "strip ''Merge2'' = ''Merge2''"
    "strip ''  '' = []"
    by (simp_all add: eval_text)
  have i: "\<not> ieq ''Blur'' ''GRADE''" "ieq ''Grade'' ''GRADE''" "\<not> ieq ''Blur'' ''Merge2''"
    "\<not> ieq ''Grade'' ''Merge2''"
    by (simp_all add: ieq_def eval_text)
  note t = nodes_by_class_match [of "[ex_blur1, ex_grade, ex_blur2]", THEN conjunct2]
  show ?thesis
    by (simp add: t s i ex_classes)
qed

section \<open>Properties of the common knobs\<close>

lemma fold_inter:
  "fold (\<lambda>node c. c \<inter> knob_names node) rest S = S \<inter> (\<Inter>n\<in>set rest. knob_names n)"
  by (induction rest arbitrary: S) auto

lemma loop_set:
  "set (visible_common_loop first ks acc) = set acc \<union> {k \<in> set ks. editable first k}"
proof (induction ks arbitrary: acc)
  case Nil
  then show ?case by simp
next
  case (Cons k ks)
  show ?case
  proof (cases "editable first k")
    case True
    then obtain knob where "node_knob first k = Some knob"
      "k \<notin> set [''knobChanged'', ''onCreate'', ''updateUI'']" "\<not> hidden knob"
      "\<not> (is_Tab_Knob knob \<or> is_Text_Knob knob \<or> is_PyScript_Knob knob)"
      by (auto simp: editable_def split: option.splits)
    then have "visible_common_loop first (k # ks) acc = visible_common_loop first ks (acc @ [k])"
      by simp
    with True Cons.IH [of "acc @ [k]"] show ?thesis by auto
  next
    case False
    then have "visible_common_loop first (k # ks) acc = visible_common_loop first ks acc"
      by (cases "node_knob first k") (auto simp: editable_def)
    with False Cons.IH [of acc] show ?thesis by auto
  qed
qed

lemma loop_v1_eq: "visible_common_loop_v1 first ks acc = visible_common_loop first ks acc"
proof (induction ks arbitrary: acc)
  case Nil
  then show ?case by simp
next
  case (Cons k ks)
  then show ?case by (cases "node_knob first k") simp_all
qed

lemma common_knobs_eq:
  assumes "\<forall>S. finite S \<longrightarrow> set (iter S) = S"
  shows "common_knobs_for_nodes iter nodes =
     (case nodes of [] \<Rightarrow> []
      | first # rest \<Rightarrow>
          sorted_list_of_set {k \<in> common_names nodes - EXCLUDE_KNOBS. editable first k})"
proof (cases nodes)
  case Nil
  then show ?thesis by (simp add: common_knobs_for_nodes_def)
next
  case (Cons first rest)
  define common where "common = fold (\<lambda>node c. c \<inter> knob_names node) rest (knob_names first)"
  have c: "common = common_names nodes"
    by (simp add: common_def fold_inter common_names_def Cons)
  have "finite (knob_names first)" by (simp add: knob_names_def)
  then have f: "finite (common - EXCLUDE_KNOBS)"
    unfolding common_def fold_inter by simp
  with assms have i: "set (iter (common - EXCLUDE_KNOBS)) = common - EXCLUDE_KNOBS" by blast
  have d: "common_knobs_for_nodes iter nodes =
      (if common = {} then []
       else sorted_list_of_set (set (visible_common_loop first (iter (common - EXCLUDE_KNOBS)) [])))"
    by (simp add: common_knobs_for_nodes_def Cons Let_def common_def)
  show ?thesis
  proof (cases "common = {}")
    case True
    with c have e: "{k \<in> common_names nodes - EXCLUDE_KNOBS. editable first k} = {}" by simp
    have "sorted_list_of_set {k \<in> common_names nodes - EXCLUDE_KNOBS. editable first k} = []"
      unfolding e by simp
    with True d Cons show ?thesis by simp
  next
    case False
    have "set (visible_common_loop first (iter (common - EXCLUDE_KNOBS)) [])
        = {k \<in> common - EXCLUDE_KNOBS. editable first k}"
      by (simp add: loop_set i)
    then have "set (visible_common_loop first (iter (common - EXCLUDE_KNOBS)) [])
        = {k \<in> common_names nodes - EXCLUDE_KNOBS. editable first k}"
      by (simp only: c)
    with False d Cons show ?thesis by simp
  qed
qed

lemma visible_common_v1_eq:
  assumes "visible_common_v1 iter nodes = Inr xs"
  shows "xs = common_knobs_for_nodes iter nodes"
proof (cases nodes)
  case Nil
  with assms show ?thesis by (simp add: visible_common_v1_def)
next
  case (Cons first rest)
  define common where "common = fold (\<lambda>node c. c \<inter> knob_names node) rest (knob_names first)"
  define vc where "vc = sorted_list_of_set
      (set (visible_common_loop first (iter (common - EXCLUDE_KNOBS)) []))"
  have v1: "visible_common_v1 iter nodes =
      (if common = {} then Inl ''No common knobs found.''
       else if vc = [] then Inl ''No usable common knobs found.'' else Inr vc)"
    by (simp add: visible_common_v1_def Cons Let_def common_def vc_def loop_v1_eq)
  have v2: "common_knobs_for_nodes iter nodes = (if common = {} then [] else vc)"
    by (simp add: common_knobs_for_nodes_def Cons Let_def common_def vc_def)
  from assms v1 have "common \<noteq> {}" "xs = vc"
    by (auto split: if_splits)
  with v2 show ?thesis by simp
qed


text \<open>
  Claim C5. Whatever order Python iterates the set of common names in,
  \<open>_common_knobs_for_nodes\<close> returns a list that is sorted (strings compared code point by
  code point, so case counts) and has no duplicates; no name of \<open>EXCLUDE_KNOBS\<close> and none
  of \<open>knobChanged\<close>, \<open>onCreate\<close>, \<open>updateUI\<close> is in it, and every name in it is a knob of
  every target; the list is the same for every iteration order, so that two calls on the
  same targets return the same list. The list the older \<open>mass_knob_modifier\<close> computes
  in line, when it computes one, is that list.
\<close>

theorem common_knobs_sorted_filtered:
  "(\<forall>S. finite S \<longrightarrow> set (iter S) = S) \<longrightarrow>
     sorted (common_knobs_for_nodes iter nodes)
     \<and> distinct (common_knobs_for_nodes iter nodes)
     \<and> (\<forall>k\<in>set (common_knobs_for_nodes iter nodes).
           k \<notin> EXCLUDE_KNOBS \<and> k \<notin> {''knobChanged'', ''onCreate'', ''updateUI''}
           \<and> k \<in> common_names nodes)
     \<and> (\<forall>iter'. (\<forall>S. finite S \<longrightarrow> set (iter' S) = S)
           \<longrightarrow> common_knobs_for_nodes iter' nodes = common_knobs_for_nodes iter nodes)
     \<and> (\<forall>xs. visible_common_v1 iter nodes = Inr xs \<longrightarrow> xs = common_knobs_for_nodes iter nodes)"
proof (intro impI)
  assume it: "\<forall>S. finite S \<longrightarrow> set (iter S) = S"
  note eq = common_knobs_eq [OF it, of nodes]
  have fin: "nodes \<noteq> [] \<Longrightarrow> finite (common_names nodes)"
  proof -
    assume "nodes \<noteq> []"
    then obtain n where "n \<in> set nodes" by (cases nodes) auto
    moreover have "finite (knob_names n)" by (simp add: knob_names_def)
    ultimately show ?thesis unfolding common_names_def by (meson finite_INT)
  qed
  have s: "sorted (common_knobs_for_nodes iter nodes)"
    unfolding eq by (cases nodes) simp_all
  have d: "distinct (common_knobs_for_nodes iter nodes)"
    unfolding eq by (cases nodes) simp_all
  have m: "\<forall>k\<in>set (common_knobs_for_nodes iter nodes).
      k \<notin> EXCLUDE_KNOBS \<and> k \<notin> {''knobChanged'', ''onCreate'', ''updateUI''}
      \<and> k \<in> common_names nodes"
  proof (cases nodes)
    case Nil
    then show ?thesis unfolding eq by simp
  next
    case (Cons first rest)
    then have f: "finite {k \<in> common_names nodes - EXCLUDE_KNOBS. editable first k}"
      using fin by simp
    from eq Cons have "common_knobs_for_nodes iter nodes
        = sorted_list_of_set {k \<in> common_names nodes - EXCLUDE_KNOBS. editable first k}"
      by simp
    with f have "set (common_knobs_for_nodes iter nodes)
        = {k \<in> common_names nodes - EXCLUDE_KNOBS. editable first k}"
      by simp
    then show ?thesis by (auto simp: editable_def split: option.splits)
  qed
  have i: "\<forall>iter'. (\<forall>S. finite S \<longrightarrow> set (iter' S) = S)
      \<longrightarrow> common_knobs_for_nodes iter' nodes = common_knobs_for_nodes iter nodes"
    using common_knobs_eq [of _ nodes] eq by simp
  have v: "\<forall>xs. visible_common_v1 iter nodes = Inr xs \<longrightarrow> xs = common_knobs_for_nodes iter nodes"
    using visible_common_v1_eq by blast
  from s d m i v show "sorted (common_knobs_for_nodes iter nodes)
     \<and> distinct (common_knobs_for_nodes iter nodes)
     \<and> (\<forall>k\<in>set (common_knobs_for_nodes iter nodes).
           k \<notin> EXCLUDE_KNOBS \<and> k \<notin> {''knobChanged'', ''onCreate'', ''updateUI''}
           \<and> k \<in> common_names nodes)
     \<and> (\<forall>iter'. (\<forall>S. finite S \<longrightarrow> set (iter' S) = S)
           \<longrightarrow> common_knobs_for_nodes iter' nodes = common_knobs_for_nodes iter nodes)
     \<and> (\<forall>xs. visible_common_v1 iter nodes = Inr xs \<longrightarrow> xs = common_knobs_for_nodes iter nodes)"
    by blast
qed


theorem common_knobs_sorted_filtered_witness:
  "sorted (common_knobs_for_nodes sorted_list_of_set [ex_blur1, ex_grade])
   \<and> distinct (common_knobs_for_nodes sorted_list_of_set [ex_blur1, ex_grade])
   \<and> common_knobs_for_nodes ex_iter_rev [ex_blur1, ex_grade]
       = common_knobs_for_nodes sorted_list_of_set [ex_blur1, ex_grade]
   \<and> common_knobs_for_nodes sorted_list_of_set [ex_blur1, ex_grade] = [''label'']
   \<and> common_knobs_for_nodes sorted_list_of_set [ex_blur1, ex_blur2]
       = [''filter'', ''label'', ''size'']"
proof -
  have h: "\<forall>S::string set. finite S \<longrightarrow> set (sorted_list_of_set S) = S" by simp
  have h': "\<forall>S::string set. finite S \<longrightarrow> set (ex_iter_rev S) = S"
    by (simp add: ex_iter_rev_def)
  note t = common_knobs_sorted_filtered [of sorted_list_of_set "[ex_blur1, ex_grade]",
      THEN mp, OF h]
  note i = t [THEN conjunct2, THEN conjunct2, THEN conjunct2, THEN conjunct1, THEN spec,
      THEN mp, OF h']
  have v: "common_knobs_for_nodes sorted_list_of_set [ex_blur1, ex_grade] = [''label'']"
    "common_knobs_for_nodes sorted_list_of_set [ex_blur1, ex_blur2]
      = [''filter'', ''label'', ''size'']"
    by code_simp+
  from t [THEN conjunct1] t [THEN conjunct2, THEN conjunct1] i v show ?thesis
    by (intro conjI)
qed

section \<open>Properties of the batch driver\<close>

lemmas outcome_defs = outcome_def applied_def failed_def escapes_def error_entry_def calls_on_def

lemma apply_loop_tally:
  assumes "\<forall>t\<in>set targets. \<not> escapes E kn v t"
  shows "\<exists>m. apply_loop E kn v targets (c0, e0, m0) ev =
     ((c0 + length (filter (applied E kn v) targets),
       e0 @ map (error_entry E kn v) (filter (failed E kn v) targets), m),
      ev @ concat (map (calls_on E kn v) targets), None)"
  using assms
proof (induction targets arbitrary: c0 e0 m0 ev)
  case Nil
  then show ?case by simp
next
  case (Cons t ts)
  then have ih: "\<And>c0 e0 m0 ev. \<exists>m. apply_loop E kn v ts (c0, e0, m0) ev =
     ((c0 + length (filter (applied E kn v) ts),
       e0 @ map (error_entry E kn v) (filter (failed E kn v) ts), m),
      ev @ concat (map (calls_on E kn v) ts), None)"
    by simp
  show ?case
  proof (cases "node_knob t kn")
    case None
    then have "\<not> applied E kn v t" "\<not> failed E kn v t" "calls_on E kn v t = []"
      by (simp_all add: outcome_defs)
    with None ih [of c0 e0 m0 ev] show ?thesis by simp
  next
    case (Some k)
    obtain calls r where o: "set_knob_value_or_expression E k v [] = (calls, r)"
      by (cases "set_knob_value_or_expression E k v []")
    show ?thesis
    proof (cases r)
      case (Inr m)
      with Some o have "applied E kn v t" "\<not> failed E kn v t"
        "calls_on E kn v t = map (KnobCall (n_name t)) calls"
        by (simp_all add: outcome_defs)
      with Some o Inr ih [of "c0 + 1" e0 "Some m" "ev @ map (KnobCall (n_name t)) calls"]
      show ?thesis by (simp add: Let_def)
    next
      case (Inl e)
      with Some o Cons.prems have ex: "is_Exception e"
        by (simp add: outcome_defs)
      from Inl Some o have "\<not> applied E kn v t" "failed E kn v t"
        "calls_on E kn v t = map (KnobCall (n_name t)) calls"
        "error_entry E kn v t = n_name t @ '': '' @ exc_msg e"
        by (simp_all add: outcome_defs)
      with Some o Inl ex
        ih [of c0 "e0 @ [n_name t @ '': '' @ exc_msg e]" m0 "ev @ map (KnobCall (n_name t)) calls"]
      show ?thesis by (simp add: Let_def)
    qed
  qed
qed

lemma apply_loop_events:
  "\<exists>body. fst (snd (apply_loop E kn v targets t ev)) = ev @ body
     \<and> (\<forall>x\<in>set body. \<exists>n c. x = KnobCall n c)"
proof (induction targets arbitrary: t ev)
  case Nil
  then show ?case by simp
next
  case (Cons node ts)
  obtain c0 e0 m0 where t: "t = (c0, e0, m0)" by (cases t)
  show ?case
  proof (cases "node_knob node kn")
    case None
    with Cons.IH [of t ev] t show ?thesis by simp
  next
    case (Some k)
    obtain calls r where o: "set_knob_value_or_expression E k v [] = (calls, r)"
      by (cases "set_knob_value_or_expression E k v []")
    let ?ev = "ev @ map (KnobCall (n_name node)) calls"
    have step: "\<And>t'. \<exists>body. fst (snd (apply_loop E kn v ts t' ?ev)) = ev @ body
        \<and> (\<forall>x\<in>set body. \<exists>n c. x = KnobCall n c)"
    proof -
      fix t'
      from Cons.IH [of t' ?ev] obtain body where
        b: "fst (snd (apply_loop E kn v ts t' ?ev)) = ?ev @ body"
        "\<forall>x\<in>set body. \<exists>n c. x = KnobCall n c" by blast
      then show "\<exists>body. fst (snd (apply_loop E kn v ts t' ?ev)) = ev @ body
        \<and> (\<forall>x\<in>set body. \<exists>n c. x = KnobCall n c)"
        by (intro exI [of _ "map (KnobCall (n_name node)) calls @ body"]) auto
    qed
    show ?thesis
    proof (cases r)
      case (Inr m)
      with Some o t step [of "(c0 + 1, e0, Some m)"] show ?thesis by (simp add: Let_def)
    next
      case (Inl e)
      show ?thesis
      proof (cases "is_Exception e")
        case True
        with Inl Some o t step [of "(c0, e0 @ [n_name node @ '': '' @ exc_msg e], m0)"]
        show ?thesis by (simp add: Let_def)
      next
        case False
        with Inl Some o t show ?thesis
          by (intro exI [of _ "map (KnobCall (n_name node)) calls"]) (auto simp: Let_def)
      qed
    qed
  qed
qed


text \<open>
  Claim C4. In the batch driver, as long as no exception outside \<open>Exception\<close> is raised:
  a target without the knob is passed over (it is not counted, gets no error entry and
  receives no call); for a target with the knob on which the application raises, the
  entry \<open><name>: <message>\<close> is added to the errors and the loop goes on with the next
  targets, the calls accepted before staying in place; \<open>changed\<close> is the number of targets
  with the knob on which the application returned, and the errors are the entries of the
  failing targets, in the order of the targets.
\<close>

theorem batch_tally:
  "(\<forall>t\<in>set targets. \<not> escapes E kn v t) \<longrightarrow>
     fst (fst (apply_changes E targets kn v [])) = length (filter (applied E kn v) targets)
     \<and> fst (snd (fst (apply_changes E targets kn v []))) =
         map (error_entry E kn v) (filter (failed E kn v) targets)
     \<and> fst (snd (apply_changes E targets kn v [])) =
         [UndoBegin ''Mass Knob Modifier''] @ concat (map (calls_on E kn v) targets) @ [UndoEnd]
     \<and> snd (snd (apply_changes E targets kn v [])) = None
     \<and> (\<forall>t\<in>set targets. node_knob t kn = None
           \<longrightarrow> \<not> applied E kn v t \<and> \<not> failed E kn v t \<and> calls_on E kn v t = [])
     \<and> (\<forall>t\<in>set targets. \<forall>k calls e.
           node_knob t kn = Some k \<and> set_knob_value_or_expression E k v [] = (calls, Inl e)
           \<longrightarrow> failed E kn v t \<and> error_entry E kn v t = n_name t @ '': '' @ exc_msg e)
     \<and> (\<forall>t\<in>set targets. \<forall>k calls m.
           node_knob t kn = Some k \<and> set_knob_value_or_expression E k v [] = (calls, Inr m)
           \<longrightarrow> applied E kn v t)"
proof (intro impI)
  assume a: "\<forall>t\<in>set targets. \<not> escapes E kn v t"
  from apply_loop_tally [OF a, of 0 "[]" None "[UndoBegin ''Mass Knob Modifier'']"]
  obtain m where l: "apply_loop E kn v targets (0, [], None) [UndoBegin ''Mass Knob Modifier''] =
     ((length (filter (applied E kn v) targets),
       map (error_entry E kn v) (filter (failed E kn v) targets), m),
      [UndoBegin ''Mass Knob Modifier''] @ concat (map (calls_on E kn v) targets), None)"
    by auto
  have r: "apply_changes E targets kn v [] =
     ((length (filter (applied E kn v) targets),
       map (error_entry E kn v) (filter (failed E kn v) targets), m),
      [UndoBegin ''Mass Knob Modifier''] @ concat (map (calls_on E kn v) targets) @ [UndoEnd], None)"
    by (simp add: apply_changes_def l)
  show "fst (fst (apply_changes E targets kn v [])) = length (filter (applied E kn v) targets)
     \<and> fst (snd (fst (apply_changes E targets kn v []))) =
         map (error_entry E kn v) (filter (failed E kn v) targets)
     \<and> fst (snd (apply_changes E targets kn v [])) =
         [UndoBegin ''Mass Knob Modifier''] @ concat (map (calls_on E kn v) targets) @ [UndoEnd]
     \<and> snd (snd (apply_changes E targets kn v [])) = None
     \<and> (\<forall>t\<in>set targets. node_knob t kn = None
           \<longrightarrow> \<not> applied E kn v t \<and> \<not> failed E kn v t \<and> calls_on E kn v t = [])
     \<and> (\<forall>t\<in>set targets. \<forall>k calls e.
           node_knob t kn = Some k \<and> set_knob_value_or_expression E k v [] = (calls, Inl e)
           \<longrightarrow> failed E kn v t \<and> error_entry E kn v t = n_name t @ '': '' @ exc_msg e)
     \<and> (\<forall>t\<in>set targets. \<forall>k calls m.
           node_knob t kn = Some k \<and> set_knob_value_or_expression E k v [] = (calls, Inr m)
           \<longrightarrow> applied E kn v t)"
    unfolding r by (simp add: outcome_defs)
qed

lemma ex_size:
  "node_knob ex_blur1 ''size'' = Some ex_knob" "node_knob ex_blur2 ''size'' = Some ex_knob"
  "node_knob ex_grade ''size'' = None" "node_knob ex_t3 ''size'' = Some ex_rejecting"
  "node_knob ex_stop ''size'' = Some ex_interrupted"
  "n_name ex_blur1 = ''Blur1''" "n_name ex_blur2 = ''Blur2''" "n_name ex_t3 = ''T3''"
  "n_name ex_stop = ''Stop''"
  by (simp_all add: node_knob_def ex_blur1_def ex_blur2_def ex_grade_def ex_t3_def ex_stop_def)

lemma ex_set_25:
  "set_knob_value_or_expression ex_builtins ex_knob (Some ''2.5'') [] =
     ([SetValue (PFloat (Finite (5 / 2))) None], Inr ''value'')"
  "set_knob_value_or_expression ex_builtins ex_rejecting (Some ''2.5'') [] =
     ([], Inl (OtherException ''rejected''))"
  "set_knob_value_or_expression ex_builtins ex_interrupted (Some ''2.5'') [] =
     ([], Inl (NonException ''KeyboardInterrupt''))"
  by (simp_all add: set_value_plain literal_of_def ieq_def numeric_def label_text_def
      coerce_for_knob_def assign_once_def ex_rejecting_def ex_interrupted_def eval_knob eval_text)

theorem batch_tally_witness:
  "fst (fst (apply_changes ex_builtins [ex_blur1, ex_grade, ex_t3, ex_blur2] ''size'' (Some ''2.5'') [])) = 2
   \<and> fst (snd (fst (apply_changes ex_builtins [ex_blur1, ex_grade, ex_t3, ex_blur2] ''size''
                       (Some ''2.5'') []))) = [''T3: rejected'']
   \<and> fst (snd (apply_changes ex_builtins [ex_blur1, ex_grade, ex_t3, ex_blur2] ''size''
                  (Some ''2.5'') [])) =
       [UndoBegin ''Mass Knob Modifier'',
        KnobCall ''Blur1'' (SetValue (PFloat (Finite (5 / 2))) None),
        KnobCall ''Blur2'' (SetValue (PFloat (Finite (5 / 2))) None), UndoEnd]"
proof -
  have o: "outcome ex_builtins ''size'' (Some ''2.5'') ex_blur1 =
      Some ([SetValue (PFloat (Finite (5 / 2))) None], Inr ''value'')"
    "outcome ex_builtins ''size'' (Some ''2.5'') ex_blur2 =
      Some ([SetValue (PFloat (Finite (5 / 2))) None], Inr ''value'')"
    "outcome ex_builtins ''size'' (Some ''2.5'') ex_grade = None"
    "outcome ex_builtins ''size'' (Some ''2.5'') ex_t3 = Some ([], Inl (OtherException ''rejected''))"
    by (simp_all add: outcome_def ex_size ex_set_25)
  have h: "\<forall>t\<in>set [ex_blur1, ex_grade, ex_t3, ex_blur2].
      \<not> escapes ex_builtins ''size'' (Some ''2.5'') t"
    by (simp add: escapes_def o)
  note t = batch_tally [of "[ex_blur1, ex_grade, ex_t3, ex_blur2]" ex_builtins "''size''"
      "Some ''2.5''", THEN mp, OF h]
  have f: "filter (applied ex_builtins ''size'' (Some ''2.5'')) [ex_blur1, ex_grade, ex_t3, ex_blur2]
      = [ex_blur1, ex_blur2]"
    "filter (failed ex_builtins ''size'' (Some ''2.5'')) [ex_blur1, ex_grade, ex_t3, ex_blur2] = [ex_t3]"
    by (simp_all add: applied_def failed_def o)
  have c: "map (calls_on ex_builtins ''size'' (Some ''2.5'')) [ex_blur1, ex_grade, ex_t3, ex_blur2]
      = [[KnobCall ''Blur1'' (SetValue (PFloat (Finite (5 / 2))) None)], [], [],
         [KnobCall ''Blur2'' (SetValue (PFloat (Finite (5 / 2))) None)]]"
    "error_entry ex_builtins ''size'' (Some ''2.5'') ex_t3 = ''T3: rejected''"
    by (simp_all add: calls_on_def error_entry_def o ex_size)
  note t1 = t [THEN conjunct1, unfolded f]
  note t2 = t [THEN conjunct2, THEN conjunct1, unfolded f]
  note t3 = t [THEN conjunct2, THEN conjunct2, THEN conjunct1, unfolded c(1)]
  from t1 t2 t3 show ?thesis by (simp add: c(2))
qed

section \<open>Properties of the undo transaction\<close>

lemma set_knob_v1_pair:
  "\<exists>calls r. set_knob_value_or_expression_v1 k v [] = (calls, r)"
  by (cases "set_knob_value_or_expression_v1 k v []") simp

lemma apply_loop_v1_events:
  "\<exists>body. fst (snd (apply_loop_v1 kn v targets t ev)) = ev @ body
     \<and> (\<forall>x\<in>set body. \<exists>n c. x = KnobCall n c)"
proof (induction targets arbitrary: t ev)
  case Nil
  then show ?case by simp
next
  case (Cons node ts)
  obtain c0 e0 m0 where t: "t = (c0, e0, m0)" by (cases t)
  show ?case
  proof (cases "node_knob node kn")
    case None
    with Cons.IH [of t ev] t show ?thesis by simp
  next
    case (Some k)
    obtain calls r where o: "set_knob_value_or_expression_v1 k v [] = (calls, r)"
      using set_knob_v1_pair by blast
    let ?ev = "ev @ map (KnobCall (n_name node)) calls"
    have step: "\<And>t'. \<exists>body. fst (snd (apply_loop_v1 kn v ts t' ?ev)) = ev @ body
        \<and> (\<forall>x\<in>set body. \<exists>n c. x = KnobCall n c)"
    proof -
      fix t'
      from Cons.IH [of t' ?ev] obtain body where
        b: "fst (snd (apply_loop_v1 kn v ts t' ?ev)) = ?ev @ body"
        "\<forall>x\<in>set body. \<exists>n c. x = KnobCall n c" by blast
      then show "\<exists>body. fst (snd (apply_loop_v1 kn v ts t' ?ev)) = ev @ body
        \<and> (\<forall>x\<in>set body. \<exists>n c. x = KnobCall n c)"
        by (intro exI [of _ "map (KnobCall (n_name node)) calls @ body"]) auto
    qed
    show ?thesis
    proof (cases r)
      case (Inr m)
      with Some o t step [of "(c0 + 1, e0, Some m)"] show ?thesis by (simp add: Let_def)
    next
      case (Inl e)
      show ?thesis
      proof (cases "is_Exception e")
        case True
        with Inl Some o t step [of "(c0, e0 @ [n_name node @ '': '' @ exc_msg e], m0)"]
        show ?thesis by (simp add: Let_def)
      next
        case False
        with Inl Some o t show ?thesis
          by (intro exI [of _ "map (KnobCall (n_name node)) calls"]) (auto simp: Let_def)
      qed
    qed
  qed
qed

lemma apply_changes_bracket:
  "\<exists>body. fst (snd (apply_changes E targets kn v events)) =
       events @ [UndoBegin ''Mass Knob Modifier''] @ body @ [UndoEnd]
     \<and> (\<forall>x\<in>set body. \<exists>n c. x = KnobCall n c)"
proof -
  from apply_loop_events [of E kn v targets "(0, [], None)" "events @ [UndoBegin ''Mass Knob Modifier'']"]
  obtain body where b: "fst (snd (apply_loop E kn v targets (0, [], None)
        (events @ [UndoBegin ''Mass Knob Modifier'']))) =
      (events @ [UndoBegin ''Mass Knob Modifier'']) @ body"
    "\<forall>x\<in>set body. \<exists>n c. x = KnobCall n c" by blast
  have "fst (snd (apply_changes E targets kn v events)) =
      fst (snd (apply_loop E kn v targets (0, [], None)
        (events @ [UndoBegin ''Mass Knob Modifier'']))) @ [UndoEnd]"
    by (simp add: apply_changes_def Let_def split: option.splits)
  with b show ?thesis by auto
qed

lemma apply_changes_v1_bracket:
  "\<exists>body. fst (snd (apply_changes_v1 targets kn v events)) =
       events @ [UndoBegin ''Mass Knob Modifier''] @ body @ [UndoEnd]
     \<and> (\<forall>x\<in>set body. \<exists>n c. x = KnobCall n c)"
proof -
  from apply_loop_v1_events [of kn v targets "(0, [], None)" "events @ [UndoBegin ''Mass Knob Modifier'']"]
  obtain body where b: "fst (snd (apply_loop_v1 kn v targets (0, [], None)
        (events @ [UndoBegin ''Mass Knob Modifier'']))) =
      (events @ [UndoBegin ''Mass Knob Modifier'']) @ body"
    "\<forall>x\<in>set body. \<exists>n c. x = KnobCall n c" by blast
  have "fst (snd (apply_changes_v1 targets kn v events)) =
      fst (snd (apply_loop_v1 kn v targets (0, [], None)
        (events @ [UndoBegin ''Mass Knob Modifier'']))) @ [UndoEnd]"
    by (simp add: apply_changes_v1_def Let_def split: option.splits)
  with b show ?thesis by auto
qed

lemma undo_of_bracket:
  assumes "evs = [UndoBegin l] @ body @ [UndoEnd]" "\<forall>x\<in>set body. \<exists>n c. x = KnobCall n c"
  shows "undo_events evs = [UndoBegin l, UndoEnd]"
    and "undo_events (evs @ [ShowMessage m]) = [UndoBegin l, UndoEnd]"
proof -
  from assms(2) have "filter is_undo body = []"
    by (induction body) auto
  with assms(1) show "undo_events evs = [UndoBegin l, UndoEnd]"
    and "undo_events (evs @ [ShowMessage m]) = [UndoBegin l, UndoEnd]"
    by (simp_all add: undo_events_def)
qed

lemma undo_apply_changes:
  "undo_events (fst (snd (apply_changes E targets kn v []))) =
     [UndoBegin ''Mass Knob Modifier'', UndoEnd]"
  "undo_events (fst (snd (apply_changes E targets kn v [])) @ [ShowMessage m]) =
     [UndoBegin ''Mass Knob Modifier'', UndoEnd]"
proof -
  from apply_changes_bracket [of E targets kn v "[]"] obtain body where
    "fst (snd (apply_changes E targets kn v [])) =
       [UndoBegin ''Mass Knob Modifier''] @ body @ [UndoEnd]"
    "\<forall>x\<in>set body. \<exists>n c. x = KnobCall n c" by auto
  from undo_of_bracket [OF this]
  show "undo_events (fst (snd (apply_changes E targets kn v []))) =
     [UndoBegin ''Mass Knob Modifier'', UndoEnd]"
    "undo_events (fst (snd (apply_changes E targets kn v [])) @ [ShowMessage m]) =
     [UndoBegin ''Mass Knob Modifier'', UndoEnd]"
    by simp_all
qed

lemma undo_apply_changes_v1:
  "undo_events (fst (snd (apply_changes_v1 targets kn v []))) =
     [UndoBegin ''Mass Knob Modifier'', UndoEnd]"
  "undo_events (fst (snd (apply_changes_v1 targets kn v [])) @ [ShowMessage m]) =
     [UndoBegin ''Mass Knob Modifier'', UndoEnd]"
proof -
  from apply_changes_v1_bracket [of targets kn v "[]"] obtain body where
    "fst (snd (apply_changes_v1 targets kn v [])) =
       [UndoBegin ''Mass Knob Modifier''] @ body @ [UndoEnd]"
    "\<forall>x\<in>set body. \<exists>n c. x = KnobCall n c" by auto
  from undo_of_bracket [OF this]
  show "undo_events (fst (snd (apply_changes_v1 targets kn v []))) =
     [UndoBegin ''Mass Knob Modifier'', UndoEnd]"
    "undo_events (fst (snd (apply_changes_v1 targets kn v [])) @ [ShowMessage m]) =
     [UndoBegin ''Mass Knob Modifier'', UndoEnd]"
    by simp_all
qed

lemma undo_events_none: "undo_events [] = []" "undo_events [ShowMessage m] = []"
  by (simp_all add: undo_events_def)

lemma driver_undo:
  "undo_events (fst (mass_knob_modifier E iter selected all_nodes dlg))
     \<in> {[], [UndoBegin ''Mass Knob Modifier'', UndoEnd]}"
  unfolding mass_knob_modifier_def Let_def
  by (simp add: undo_apply_changes undo_events_none
      split: option.splits sum.splits list.splits prod.splits)

lemma driver_v1_undo:
  "undo_events (fst (mass_knob_modifier_v1 iter nodes dlg))
     \<in> {[], [UndoBegin ''Mass Knob Modifier'', UndoEnd]}"
  unfolding mass_knob_modifier_v1_def Let_def
  by (simp add: undo_apply_changes_v1 undo_events_none split: option.splits sum.splits)

text \<open>
  Claim C9. Whatever the targets, the knob and the value, the part of the driver that
  opens the undo transaction, runs the loop and closes the transaction leaves this trace:
  the opening, then only calls on knobs, then the closing; this holds when the loop runs to
  its end and when an exception outside \<open>Exception\<close> leaves it (the closing is in a
  \<open>finally\<close>). So the whole function, in both files, either never opens a transaction or
  opens one and closes it.
\<close>

theorem undo_always_closed:
  "(\<exists>body. fst (snd (apply_changes E targets kn v events)) =
        events @ [UndoBegin ''Mass Knob Modifier''] @ body @ [UndoEnd]
      \<and> (\<forall>x\<in>set body. \<exists>n c. x = KnobCall n c))
   \<and> (\<exists>body. fst (snd (apply_changes_v1 targets kn v events)) =
        events @ [UndoBegin ''Mass Knob Modifier''] @ body @ [UndoEnd]
      \<and> (\<forall>x\<in>set body. \<exists>n c. x = KnobCall n c))
   \<and> undo_events (fst (mass_knob_modifier E iter selected all_nodes dlg))
        \<in> {[], [UndoBegin ''Mass Knob Modifier'', UndoEnd]}
   \<and> undo_events (fst (mass_knob_modifier_v1 iter selected dlg))
        \<in> {[], [UndoBegin ''Mass Knob Modifier'', UndoEnd]}"
  using apply_changes_bracket [of E targets kn v events]
    apply_changes_v1_bracket [of targets kn v events]
    driver_undo [of E iter selected all_nodes dlg] driver_v1_undo [of iter selected dlg]
  by blast

lemma ex_interrupted_run:
  "apply_changes ex_builtins [ex_blur1, ex_stop, ex_blur2] ''size'' (Some ''2.5'') [] =
     ((1, [], Some ''value''),
      [UndoBegin ''Mass Knob Modifier'',
       KnobCall ''Blur1'' (SetValue (PFloat (Finite (5 / 2))) None), UndoEnd],
      Some (NonException ''KeyboardInterrupt''))"
  by (simp add: apply_changes_def Let_def ex_size ex_set_25)

theorem undo_always_closed_witness:
  "snd (snd (apply_changes ex_builtins [ex_blur1, ex_stop, ex_blur2] ''size'' (Some ''2.5'') []))
     = Some (NonException ''KeyboardInterrupt'')
   \<and> fst (snd (apply_changes ex_builtins [ex_blur1, ex_stop, ex_blur2] ''size'' (Some ''2.5'') []))
     = [UndoBegin ''Mass Knob Modifier'',
        KnobCall ''Blur1'' (SetValue (PFloat (Finite (5 / 2))) None), UndoEnd]
   \<and> last (fst (snd (apply_changes ex_builtins [ex_blur1, ex_stop, ex_blur2] ''size''
                       (Some ''2.5'') []))) = UndoEnd"
proof -
  from undo_always_closed [of ex_builtins "[ex_blur1, ex_stop, ex_blur2]" "''size''"
      "Some ''2.5''" "[]", THEN conjunct1]
  obtain body where "fst (snd (apply_changes ex_builtins [ex_blur1, ex_stop, ex_blur2] ''size''
      (Some ''2.5'') [])) = [] @ [UndoBegin ''Mass Knob Modifier''] @ body @ [UndoEnd]"
    by blast
  then have "last (fst (snd (apply_changes ex_builtins [ex_blur1, ex_stop, ex_blur2] ''size''
      (Some ''2.5'') []))) = UndoEnd"
    by simp
  then show ?thesis by (simp add: ex_interrupted_run)
qed

section \<open>Properties of empty input\<close>

lemma empty_expression_knob:
  assumes "take 1 (strip s) = ''=''" "strip (drop 1 (strip s)) = []"
  shows "set_knob_value_or_expression E k (Some s) calls =
     (calls, Inl (ValueError ''Empty expression.''))"
proof -
  from assms(1) have "strip s \<noteq> []" by auto
  with assms show ?thesis by (simp add: set_knob_value_or_expression_def Let_def)
qed

lemma empty_expression_loop:
  assumes "take 1 (strip s) = ''=''" "strip (drop 1 (strip s)) = []"
  shows "apply_loop E kn (Some s) targets (c0, e0, m0) ev =
     ((c0, e0 @ map (\<lambda>t. n_name t @ '': Empty expression.'')
                  (filter (\<lambda>t. node_knob t kn \<noteq> None) targets), m0), ev, None)"
proof (induction targets arbitrary: e0)
  case Nil
  then show ?case by simp
next
  case (Cons t ts)
  show ?case
  proof (cases "node_knob t kn")
    case None
    with Cons.IH [of e0] show ?thesis by simp
  next
    case (Some k)
    with Cons.IH [of "e0 @ [n_name t @ '': Empty expression.'']"]
      empty_expression_knob [OF assms, of E k "[]"]
    show ?thesis by simp
  qed
qed

text \<open>
  Claim C2, as amended. When the panel was accepted and the value text is blank once
  trimmed (or is \<open>None\<close>), \<open>mass_knob_modifier\<close> shows \<open>Value cannot be empty.\<close> and
  returns: no transaction is opened, no knob is called, no error entry is made. When the
  trimmed input starts with \<open>=\<close> and what follows is blank, no knob is ever called
  (\<open>_set_knob_value_or_expression\<close> raises \<open>ValueError("Empty expression.")\<close> before any
  call), but the batch is not aborted: the transaction is opened and closed, \<open>changed\<close>
  stays 0, and every target that has the knob gets the entry
  \<open><name>: Empty expression.\<close>
\<close>

theorem empty_input:
  "(d_accepted dlg \<and> (d_value dlg = None \<or> (\<exists>s. d_value dlg = Some s \<and> strip s = []))
      \<longrightarrow> mass_knob_modifier E iter selected all_nodes dlg =
            ([ShowMessage ''Value cannot be empty.''], None))
   \<and> (take 1 (strip s) = ''='' \<and> strip (drop 1 (strip s)) = []
      \<longrightarrow> (\<forall>k calls. set_knob_value_or_expression E k (Some s) calls =
                        (calls, Inl (ValueError ''Empty expression.'')))
          \<and> apply_changes E targets kn (Some s) [] =
              ((0, map (\<lambda>t. n_name t @ '': Empty expression.'')
                       (filter (\<lambda>t. node_knob t kn \<noteq> None) targets), None),
               [UndoBegin ''Mass Knob Modifier'', UndoEnd], None))"
proof (intro conjI impI allI)
  assume "d_accepted dlg \<and> (d_value dlg = None \<or> (\<exists>s. d_value dlg = Some s \<and> strip s = []))"
  then show "mass_knob_modifier E iter selected all_nodes dlg =
      ([ShowMessage ''Value cannot be empty.''], None)"
    by (auto simp: mass_knob_modifier_def)
next
  fix k calls
  assume "take 1 (strip s) = ''='' \<and> strip (drop 1 (strip s)) = []"
  then show "set_knob_value_or_expression E k (Some s) calls =
      (calls, Inl (ValueError ''Empty expression.''))"
    by (simp add: empty_expression_knob)
next
  assume "take 1 (strip s) = ''='' \<and> strip (drop 1 (strip s)) = []"
  then show "apply_changes E targets kn (Some s) [] =
      ((0, map (\<lambda>t. n_name t @ '': Empty expression.'')
               (filter (\<lambda>t. node_knob t kn \<noteq> None) targets), None),
       [UndoBegin ''Mass Knob Modifier'', UndoEnd], None)"
    by (simp add: apply_changes_def empty_expression_loop)
qed

theorem empty_input_witness:
  "mass_knob_modifier ex_builtins sorted_list_of_set [ex_blur1] [ex_blur1, ex_grade]
     (ex_dialog\<lparr>d_value := Some ''   ''\<rparr>) = ([ShowMessage ''Value cannot be empty.''], None)
   \<and> set_knob_value_or_expression ex_builtins ex_knob (Some ''= '') [] =
       ([], Inl (ValueError ''Empty expression.''))
   \<and> apply_changes ex_builtins [ex_blur1, ex_grade, ex_blur2] ''size'' (Some ''= '') [] =
       ((0, [''Blur1: Empty expression.'', ''Blur2: Empty expression.''], None),
        [UndoBegin ''Mass Knob Modifier'', UndoEnd], None)"
proof -
  have h1: "d_accepted (ex_dialog\<lparr>d_value := Some ''   ''\<rparr>)
      \<and> (d_value (ex_dialog\<lparr>d_value := Some ''   ''\<rparr>) = None
         \<or> (\<exists>s. d_value (ex_dialog\<lparr>d_value := Some ''   ''\<rparr>) = Some s \<and> strip s = []))"
    by (simp add: ex_dialog_def eval_text)
  have h2: "take 1 (strip ''= '') = ''='' \<and> strip (drop 1 (strip ''= '')) = []"
    by (simp add: eval_text)
  note t = empty_input [where dlg = "ex_dialog\<lparr>d_value := Some ''   ''\<rparr>" and s = "''= ''"
      and E = ex_builtins and iter = sorted_list_of_set and selected = "[ex_blur1]"
      and all_nodes = "[ex_blur1, ex_grade]" and targets = "[ex_blur1, ex_grade, ex_blur2]"
      and kn = "''size''"]
  note a = t [THEN conjunct1, THEN mp, OF h1]
  note b = t [THEN conjunct2, THEN mp, OF h2, THEN conjunct1, THEN spec, THEN spec,
      of ex_knob "[]"]
  note c = t [THEN conjunct2, THEN mp, OF h2, THEN conjunct2]
  from a b c show ?thesis by (simp add: ex_size)
qed

text \<open>
  The claim as it was stated fails for the input \<open>=\<close> followed by a blank: the driver
  runs the loop, and the report shows one error entry for the target.
\<close>

theorem empty_expression_not_aborted:
  "mass_knob_modifier ex_builtins sorted_list_of_set [ex_blur1] [] ex_dialog =
     ([UndoBegin ''Mass Knob Modifier'', UndoEnd,
       ShowMessage (''Changed '' @ [CHR 0x27] @ ''size'' @ [CHR 0x27] @ '' to  on 0 nodes.''
                    @ [CHR 0x0A] @ ''Errors: 1'' @ [CHR 0x0A] @ ''Blur1: Empty expression.'')],
      None)"
  by code_simp

end
